theory Spec2Isabelle
  imports Main
begin

section \<open>String primitives of the host language\<close>

text \<open>
  A text is a list of code units. The development covers texts whose code units lie
  below 256 (the Latin-1 range), so a code unit is a \<open>char\<close>. Every pattern the
  program matches against is ASCII, and inside this range the case mappings of
  non-ASCII letters never produce an ASCII letter.
\<close>

definition LF :: char where
  "LF = CHR 0x0A"

definition CR :: char where
  "CR = CHR 0x0D"

text \<open>White space as \<open>String.prototype.trim\<close> and the regular-expression class
  \<open>\s\<close> see it: TAB, LF, VT, FF, CR, SPACE and NBSP.\<close>

definition isWhiteSpace :: "char \<Rightarrow> bool" where
  "isWhiteSpace c = (c \<in> set [CHR 0x09, CHR 0x0A, CHR 0x0B, CHR 0x0C, CHR 0x0D, CHR 0x20, CHR 0xA0])"

definition trim :: "string \<Rightarrow> string" where
  "trim s = rev (dropWhile isWhiteSpace (rev (dropWhile isWhiteSpace s)))"

text \<open>\<open>toLowerCase\<close> on one code unit: the upper-case letters of the range are
  A to Z and U+00C0 to U+00DE without U+00D7; their lower-case partner is 32 higher,
  which for these code units is the same as setting bit 5.\<close>

definition isUpperCase :: "char \<Rightarrow> bool" where
  "isUpperCase c =
     (c \<in> set ''ABCDEFGHIJKLMNOPQRSTUVWXYZ'' \<or>
      c \<in> set [CHR 0xC0, CHR 0xC1, CHR 0xC2, CHR 0xC3, CHR 0xC4, CHR 0xC5, CHR 0xC6, CHR 0xC7,
                 CHR 0xC8, CHR 0xC9, CHR 0xCA, CHR 0xCB, CHR 0xCC, CHR 0xCD, CHR 0xCE, CHR 0xCF,
                 CHR 0xD0, CHR 0xD1, CHR 0xD2, CHR 0xD3, CHR 0xD4, CHR 0xD5, CHR 0xD6,
                 CHR 0xD8, CHR 0xD9, CHR 0xDA, CHR 0xDB, CHR 0xDC, CHR 0xDD, CHR 0xDE])"

fun setBit5 :: "char \<Rightarrow> char" where
  "setBit5 (Char b0 b1 b2 b3 b4 b5 b6 b7) = Char b0 b1 b2 b3 b4 True b6 b7"

definition lowerChar :: "char \<Rightarrow> char" where
  "lowerChar c = (if isUpperCase c then setBit5 c else c)"

definition toLowerCase :: "string \<Rightarrow> string" where
  "toLowerCase s = map lowerChar s"

definition startsWith :: "'a list \<Rightarrow> 'a list \<Rightarrow> bool" where
  "startsWith s p = (take (length p) s = p)"

text \<open>\<open>text.split(/\r?\n/)\<close>: a line ends at LF, and a CR right before that LF
  belongs to the separator. The result is never empty, so \<open>consHead\<close> always
  finds the piece it extends; its first equation only makes it total.\<close>

fun consHead :: "'a \<Rightarrow> 'a list list \<Rightarrow> 'a list list" where
  "consHead c [] = [[c]]"
| "consHead c (l # ls) = (c # l) # ls"

fun splitLines :: "string \<Rightarrow> string list" where
  "splitLines [] = [[]]"
| "splitLines [c] = (if c = LF then [[], []] else [[c]])"
| "splitLines (c # d # cs) =
     (if c = LF then [] # splitLines (d # cs)
      else if c = CR \<and> d = LF then [] # splitLines cs
      else consHead c (splitLines (d # cs)))"

text \<open>\<open>line.split('|')\<close> and \<open>parts.join('|')\<close>.\<close>

fun splitOn :: "'a \<Rightarrow> 'a list \<Rightarrow> 'a list list" where
  "splitOn d [] = [[]]"
| "splitOn d (c # cs) = (if c = d then [] # splitOn d cs else consHead c (splitOn d cs))"

fun joinWith :: "'a \<Rightarrow> 'a list list \<Rightarrow> 'a list" where
  "joinWith d [] = []"
| "joinWith d [l] = l"
| "joinWith d (l # ls) = l @ d # joinWith d ls"

definition isDigit :: "char \<Rightarrow> bool" where
  "isDigit c = (c \<in> set ''0123456789'')"

text \<open>\<open>/^\d+\|/.test(line)\<close>: one or more digits at the start, then a bar.\<close>

definition testRow :: "string \<Rightarrow> bool" where
  "testRow line =
     (takeWhile isDigit line \<noteq> [] \<and>
      (case dropWhile isDigit line of [] \<Rightarrow> False | c # _ \<Rightarrow> c = CHR ''|''))"

definition draftMarker :: string where
  "draftMarker = ''[JEOPARDY DRAFT]''"

section \<open>File validation\<close>

datatype rejection =
  DraftMarkerPresent | MissingOrInvalidTitle | TooFewCategories | IncompleteCategory

datatype fileType = Draft | Complete

datatype validation = Valid fileType | Invalid rejection

text \<open>The message shown for each rejection of \<open>validateGameFile\<close>.\<close>

fun message :: "rejection \<Rightarrow> string" where
  "message DraftMarkerPresent =
     ''This appears to be a draft file. Please use the \"Edit\" button instead.''"
| "message MissingOrInvalidTitle =
     ''This does not appear to be a valid game file. Game files should start with \"Title: [name]\".''"
| "message TooFewCategories =
     ''This game file is incomplete. It should have 5 categories with 5 questions each. Please use the \"Edit\" button instead.''"
| "message IncompleteCategory =
     ''This game file has incomplete categories (missing questions/answers). Please use the \"Edit\" button instead.''"

record counters =
  categoryCount :: nat
  hasIncompleteCategory :: bool
  currentCategoryQuestions :: nat

definition initCounters :: counters where
  "initCounters = \<lparr>categoryCount = 0, hasIncompleteCategory = False, currentCategoryQuestions = 0\<rparr>"

text \<open>One iteration of the counting loop shared by both validators.\<close>

definition countStep :: "counters \<Rightarrow> string \<Rightarrow> counters" where
  "countStep st line0 =
     (let line = trim line0
      in if startsWith (toLowerCase line) ''category:'' then
           st\<lparr>hasIncompleteCategory :=
                 (if categoryCount st > 0 \<and> currentCategoryQuestions st < 5 then True
                  else hasIncompleteCategory st),
              categoryCount := categoryCount st + 1,
              currentCategoryQuestions := 0\<rparr>
         else if testRow line then
           (let parts = splitOn (CHR ''|'') line
            in if length parts \<ge> 3 \<and> trim (parts ! 1) \<noteq> [] \<and> trim (parts ! 2) \<noteq> []
               then st\<lparr>currentCategoryQuestions := currentCategoryQuestions st + 1\<rparr>
               else st)
         else st)"

definition countLoop :: "string list \<Rightarrow> counters" where
  "countLoop lines = foldl countStep initCounters lines"

text \<open>\<open>lines[0] && lines[0].trim().toLowerCase().startsWith('title:')\<close>\<close>

definition firstLineIsTitle :: "string list \<Rightarrow> bool" where
  "firstLineIsTitle lines =
     (case lines of [] \<Rightarrow> False
      | l0 # _ \<Rightarrow> l0 \<noteq> [] \<and> startsWith (toLowerCase (trim l0)) ''title:'')"

definition validateGameFile :: "string \<Rightarrow> validation" where
  "validateGameFile fileContent =
     (let lines = splitLines fileContent
      in if \<exists>line \<in> set lines. trim line = draftMarker then Invalid DraftMarkerPresent
         else if \<not> firstLineIsTitle lines then Invalid MissingOrInvalidTitle
         else
           (let st = countLoop lines;
                incomplete = (hasIncompleteCategory st \<or> currentCategoryQuestions st < 5)
            in if categoryCount st < 5 then Invalid TooFewCategories
               else if incomplete then Invalid IncompleteCategory
               else Valid Complete))"

definition validateDraftFile :: "string \<Rightarrow> validation" where
  "validateDraftFile fileContent =
     (let lines = splitLines fileContent
      in if (case lines of [] \<Rightarrow> False | l0 # _ \<Rightarrow> l0 \<noteq> [] \<and> trim l0 = draftMarker)
         then Valid Draft
         else if firstLineIsTitle lines then
           (let st = countLoop lines;
                incomplete = (hasIncompleteCategory st \<or> currentCategoryQuestions st < 5)
            in if categoryCount st < 5 \<or> incomplete then Valid Draft else Valid Draft)
         else Valid Draft)"

subsection \<open>Vocabulary for the shape of a game text\<close>

definition isCategoryLine :: "string \<Rightarrow> bool" where
  "isCategoryLine l = startsWith (toLowerCase (trim l)) ''category:''"

definition isTitleLine :: "string \<Rightarrow> bool" where
  "isTitleLine l = startsWith (toLowerCase (trim l)) ''title:''"

text \<open>A clue row that the counting loop counts: it matches the row pattern and its
  second and third bar-separated fields are not blank.\<close>

definition completeRow :: "string \<Rightarrow> bool" where
  "completeRow l =
     (let line = trim l; parts = splitOn (CHR ''|'') line
      in testRow line \<and> length parts \<ge> 3 \<and> trim (parts ! 1) \<noteq> [] \<and> trim (parts ! 2) \<noteq> [])"

definition completeRows :: "string list \<Rightarrow> nat" where
  "completeRows body = length (filter completeRow body)"

text \<open>A category of a text: its \<open>Category:\<close> line and the lines up to the next one.\<close>

definition categoryBlock :: "string \<times> string list \<Rightarrow> string list" where
  "categoryBlock b = fst b # snd b"

definition wellFormedBlock :: "string \<times> string list \<Rightarrow> bool" where
  "wellFormedBlock b = (isCategoryLine (fst b) \<and> (\<forall>l \<in> set (snd b). \<not> isCategoryLine l))"

text \<open>The lines of a text that starts with a title line \<open>t\<close>, goes on with lines
  \<open>pre\<close> that open no category, and then holds the categories \<open>blocks\<close>; no line is
  the draft marker.\<close>

definition gameTextShape :: "string \<Rightarrow> string \<Rightarrow> string list \<Rightarrow> (string \<times> string list) list \<Rightarrow> bool" where
  "gameTextShape fileContent t pre blocks =
     (splitLines fileContent = t # pre @ concat (map categoryBlock blocks) \<and>
      (\<forall>l \<in> set (splitLines fileContent). trim l \<noteq> draftMarker) \<and>
      isTitleLine t \<and>
      (\<forall>l \<in> set pre. \<not> isCategoryLine l) \<and>
      (\<forall>b \<in> set blocks. wellFormedBlock b))"

subsection \<open>Sample texts\<close>

definition unlines :: "string list \<Rightarrow> string" where
  "unlines ls = joinWith LF ls"

definition riversBlock :: "string \<times> string list" where
  "riversBlock = (''Category: Rivers'',
     [''100|Longest river|Nile'', ''200|River through Paris|Seine'',
      ''300|River through London|Thames'', ''400|River through Rome|Tiber'',
      ''500|River through Vienna|Danube'', []])"

definition peaksBlock :: "string \<times> string list" where
  "peaksBlock = (''Category: Peaks'',
     [''100|Highest peak|Everest'', ''200|Highest in Africa|Kilimanjaro'',
      ''300|Highest in Europe|Elbrus'', ''400|Highest in the Alps|Mont Blanc'',
      ''500|Highest in Japan|Fuji'', []])"

definition lakesBlock :: "string \<times> string list" where
  "lakesBlock = (''Category: Lakes'',
     [''100|Deepest lake|Baikal'', ''200|Largest in Africa|Victoria'',
      ''300|Highest navigable|Titicaca'', ''400|Largest of the Great Lakes|Superior'',
      ''500|Lake of Geneva|Leman'', []])"

definition citiesBlock :: "string \<times> string list" where
  "citiesBlock = (''Category: Cities'',
     [''100|Capital of France|Paris|France'', ''200|Capital of Italy|Rome'',
      ''300|Capital of Spain|Madrid'', ''400|Capital of Norway|Oslo'',
      ''500|Capital of Peru|Lima'', []])"

definition seasBlock :: "string \<times> string list" where
  "seasBlock = (''Category: Seas'',
     [''100|Saltiest sea|Dead Sea'', ''200|Sea north of Poland|Baltic'',
      ''300|Sea east of Italy|Adriatic'', ''400|Sea south of Crimea|Black Sea'',
      ''500|Sea west of Korea|Yellow Sea'', []])"

definition geoBlocks :: "(string \<times> string list) list" where
  "geoBlocks = [riversBlock, peaksBlock, lakesBlock, citiesBlock, seasBlock]"

text \<open>A complete game text, five categories of five rows.\<close>

definition geoText :: string where
  "geoText = unlines (''Title: Geo'' # [] # concat (map categoryBlock geoBlocks))"


text \<open>The same text with the draft marker on a line after the title.\<close>

definition geoTextMarked :: string where
  "geoTextMarked = unlines (''Title: Geo'' # ''  [JEOPARDY DRAFT]'' #
     concat (map categoryBlock geoBlocks))"

text \<open>The complete text with only three rows left in its second category.\<close>

definition peaksShort :: "string \<times> string list" where
  "peaksShort = (''Category: Peaks'',
     [''100|Highest peak|Everest'', ''200|Highest in Africa|Kilimanjaro'',
      ''300|Highest in Europe|Elbrus'', []])"

definition geoBlocksShort :: "(string \<times> string list) list" where
  "geoBlocksShort = [riversBlock, peaksShort, lakesBlock, citiesBlock, seasBlock]"

definition geoTextShort :: string where
  "geoTextShort = unlines (''Title: Geo'' # [] # concat (map categoryBlock geoBlocksShort))"

section \<open>Title extraction\<close>

text \<open>
  \<open>text.match(/^[\s\t]*title\s*:(.*)$/im)\<close>. With the flag \<open>m\<close> the anchor
  \<open>^\<close> matches at the start of the text and after every line terminator, and
  \<open>.\<close> stops at a line terminator; the white-space classes do not, they run over
  line ends. \<open>matchTitleAt\<close> is the attempt anchored where the given rest of the text
  starts: it yields the captured group.
\<close>

definition isLineTerminator :: "char \<Rightarrow> bool" where
  "isLineTerminator c = (c = LF \<or> c = CR)"

definition matchTitleAt :: "string \<Rightarrow> string option" where
  "matchTitleAt s =
     (let s1 = dropWhile isWhiteSpace s
      in if startsWith (toLowerCase s1) ''title'' then
           (case dropWhile isWhiteSpace (drop 5 s1) of
              [] \<Rightarrow> None
            | c # rest \<Rightarrow>
                if c = CHR '':'' then Some (takeWhile (\<lambda>x. \<not> isLineTerminator x) rest)
                else None)
         else None)"

text \<open>The search tries the positions from left to right; \<open>atStart\<close> tells whether the
  current position is the start of a line.\<close>

fun searchTitle :: "bool \<Rightarrow> string \<Rightarrow> string option" where
  "searchTitle atStart [] = (if atStart then matchTitleAt [] else None)"
| "searchTitle atStart (c # cs) =
     (case (if atStart then matchTitleAt (c # cs) else None) of
        Some m \<Rightarrow> Some m
      | None \<Rightarrow> searchTitle (isLineTerminator c) cs)"

definition parseTitleFromText :: "string \<Rightarrow> string" where
  "parseTitleFromText text =
     (case searchTitle True text of None \<Rightarrow> [] | Some m \<Rightarrow> trim m)"

section \<open>Importing a file into the form\<close>

record team =
  name :: string
  score :: int

record clue =
  valueText :: string
  question :: string
  answer :: string

record category =
  catName :: string
  clues :: "clue list"

record importState =
  title :: string
  teams :: "team list"
  categories :: "category list"
  currentCategory :: "string option"
  currentClues :: "clue list"

definition initImport :: importState where
  "initImport = \<lparr>title = [], teams = [], categories = [], currentCategory = None,
     currentClues = []\<rparr>"

text \<open>\<open>if (currentCategory)\<close>: neither \<open>null\<close> nor the empty string.\<close>

fun truthy :: "'a list option \<Rightarrow> bool" where
  "truthy None = False"
| "truthy (Some s) = (s \<noteq> [])"

definition pushCategory :: "importState \<Rightarrow> category list" where
  "pushCategory st =
     (if truthy (currentCategory st)
      then categories st @ [\<lparr>catName = the (currentCategory st), clues = currentClues st\<rparr>]
      else categories st)"

definition parseClue :: "string list \<Rightarrow> clue" where
  "parseClue parts =
     \<lparr>valueText = trim (parts ! 0), question = trim (parts ! 1),
      answer = trim (joinWith (CHR ''|'') (drop 2 parts))\<rparr>"

text \<open>One iteration of the loop that parses a draft file (upload handler of
  \<open>jeopardy-draft-upload\<close>, marker branch).\<close>

definition importStep :: "importState \<Rightarrow> string \<Rightarrow> importState" where
  "importStep st line0 =
     (let line = trim line0
      in if line = [] \<or> line = draftMarker then st
         else if startsWith (toLowerCase line) ''title:'' then
           st\<lparr>title := trim (drop 6 line)\<rparr>
         else if startsWith (toLowerCase line) ''teams:'' then
           (let teamNames = trim (drop 6 line)
            in if teamNames \<noteq> []
               then st\<lparr>teams := map (\<lambda>n. \<lparr>name = trim n, score = 0\<rparr>)
                                   (splitOn (CHR '','') teamNames)\<rparr>
               else st)
         else if startsWith (toLowerCase line) ''created:'' then st
         else if startsWith (toLowerCase line) ''category:'' then
           st\<lparr>categories := pushCategory st,
              currentCategory := Some (trim (drop 9 line)),
              currentClues := []\<rparr>
         else if testRow line then
           (let parts = splitOn (CHR ''|'') line
            in if length parts \<ge> 3
               then st\<lparr>currentClues := currentClues st @ [parseClue parts]\<rparr>
               else st)
         else st)"

definition importDraft :: "string \<Rightarrow> importState" where
  "importDraft fileContent =
     (let st = foldl importStep initImport (splitLines fileContent);
          st1 = st\<lparr>categories := pushCategory st\<rparr>
      in if teams st1 = [] then st1\<lparr>teams := [\<lparr>name = ''Team 1'', score = 0\<rparr>]\<rparr> else st1)"

text \<open>The loop that parses a game file opened for editing (same handler, other branch):
  no marker, teams or timestamp lines, and no default team.\<close>

definition importGameStep :: "importState \<Rightarrow> string \<Rightarrow> importState" where
  "importGameStep st line0 =
     (let line = trim line0
      in if line = [] then st
         else if startsWith (toLowerCase line) ''title:'' then
           st\<lparr>title := trim (drop 6 line)\<rparr>
         else if startsWith (toLowerCase line) ''category:'' then
           st\<lparr>categories := pushCategory st,
              currentCategory := Some (trim (drop 9 line)),
              currentClues := []\<rparr>
         else if testRow line then
           (let parts = splitOn (CHR ''|'') line
            in if length parts \<ge> 3
               then st\<lparr>currentClues := currentClues st @ [parseClue parts]\<rparr>
               else st)
         else st)"

definition importGame :: "string \<Rightarrow> importState" where
  "importGame fileContent =
     (let st = foldl importGameStep initImport (splitLines fileContent)
      in st\<lparr>categories := pushCategory st\<rparr>)"

definition isTeamsLine :: "string \<Rightarrow> bool" where
  "isTeamsLine l = startsWith (toLowerCase (trim l)) ''teams:''"

text \<open>The draft of the specification's last scenario; below, a draft with two title
  lines and a blank teams line, in two parts.\<close>

definition draftText :: string where
  "draftText = unlines [''[JEOPARDY DRAFT]'', ''Title: X'', ''Teams: A, B'', [],
     ''Category: C1'', ''100|q|a'', []]"


text \<open>An attempt at the title pattern cannot succeed inside such a text, nor after more
  text is appended: up to white space, at most five code units are left.\<close>

definition shortOfTitle :: "string \<Rightarrow> bool" where
  "shortOfTitle s = (dropWhile isWhiteSpace (drop 5 (dropWhile isWhiteSpace s)) = [])"

definition twoTitlesHead :: string where
  "twoTitlesHead = unlines [''[JEOPARDY DRAFT]'', ''Title: First'']"

definition twoTitlesTail :: string where
  "twoTitlesTail = unlines [''Teams: '', ''Title: Second'', ''Category: C1'', ''100|q|a'', []]"

section \<open>Session storage\<close>

text \<open>
  The values the program stores are JSON values. A key of \<open>localStorage\<close> holds a
  string; the model records what \<open>JSON.parse\<close> does on that string: \<open>Json v\<close> is a
  non-empty string that parses to \<open>v\<close> (what \<open>JSON.stringify v\<close> wrote),
  \<open>Corrupt\<close> is a non-empty string on which \<open>JSON.parse\<close> throws a
  \<open>SyntaxError\<close>, and \<open>EmptyString\<close> is the empty string, which is falsy.
\<close>

datatype jsValue =
  JNull | JBool bool | JNumber int | JString string | JArray "jsValue list"
  | JObject "(string \<times> jsValue) list"

datatype item = EmptyString | Json jsValue | Corrupt

datatype jsError = SyntaxError | TypeError

type_synonym localStorage = "string \<rightharpoonup> item"

definition setItem :: "string \<Rightarrow> item \<Rightarrow> localStorage \<Rightarrow> localStorage" where
  "setItem key v ls = ls(key \<mapsto> v)"

definition removeItem :: "localStorage \<Rightarrow> string \<Rightarrow> localStorage" where
  "removeItem ls key = ls(key := None)"

text \<open>The helper object \<open>storage\<close>: \<open>save\<close>, \<open>load\<close>, \<open>remove\<close>, \<open>clear\<close>.
  \<open>load\<close> has no handler around \<open>JSON.parse\<close>.\<close>

definition storage_save :: "string \<Rightarrow> jsValue \<Rightarrow> localStorage \<Rightarrow> localStorage" where
  "storage_save key data ls = setItem key (Json data) ls"

definition storage_load :: "localStorage \<Rightarrow> string \<Rightarrow> jsValue \<Rightarrow> jsError + jsValue" where
  "storage_load ls key defaultValue =
     (case ls key of
        None \<Rightarrow> Inr defaultValue
      | Some EmptyString \<Rightarrow> Inr defaultValue
      | Some (Json v) \<Rightarrow> Inr v
      | Some Corrupt \<Rightarrow> Inl SyntaxError)"

definition storage_remove :: "string \<Rightarrow> localStorage \<Rightarrow> localStorage" where
  "storage_remove key ls = removeItem ls key"

definition storage_clear :: "string list \<Rightarrow> localStorage \<Rightarrow> localStorage" where
  "storage_clear keys ls = foldl removeItem ls keys"

definition saveBoardState :: "jsValue \<Rightarrow> localStorage \<Rightarrow> localStorage" where
  "saveBoardState used ls = storage_save ''jeopardyUsedCells'' used ls"

definition loadBoardState :: "localStorage \<Rightarrow> jsError + jsValue" where
  "loadBoardState ls = storage_load ls ''jeopardyUsedCells'' (JArray [])"

definition saveTeams :: "jsValue \<Rightarrow> localStorage \<Rightarrow> localStorage" where
  "saveTeams ts ls = storage_save ''jeopardyTeams'' ts ls"

definition loadTeams :: "localStorage \<Rightarrow> jsError + jsValue" where
  "loadTeams ls = storage_load ls ''jeopardyTeams'' (JArray [])"

definition saveBoardText :: "jsValue \<Rightarrow> localStorage \<Rightarrow> localStorage" where
  "saveBoardText text ls = storage_save ''jeopardyBoard'' text ls"

definition loadBoardText :: "localStorage \<Rightarrow> jsError + jsValue" where
  "loadBoardText ls = storage_load ls ''jeopardyBoard'' JNull"

definition saveTitle :: "jsValue \<Rightarrow> localStorage \<Rightarrow> localStorage" where
  "saveTitle t ls = storage_save ''jeopardyTitle'' t ls"

definition loadTitle :: "localStorage \<Rightarrow> jsError + jsValue" where
  "loadTitle ls = storage_load ls ''jeopardyTitle'' (JString [])"

definition clearAllStorage :: "localStorage \<Rightarrow> localStorage" where
  "clearAllStorage ls =
     storage_clear [''jeopardyBoard'', ''jeopardyUsedCells'', ''jeopardyTeams'', ''jeopardyTitle''] ls"

definition clearBoardTitle :: "localStorage \<Rightarrow> localStorage" where
  "clearBoardTitle ls = saveTitle (JString []) ls"

definition saveFormDraft :: "jsValue \<Rightarrow> localStorage \<Rightarrow> localStorage" where
  "saveFormDraft formData ls = storage_save ''jeopardyFormDraft'' formData ls"

definition discardFormDraft :: "localStorage \<Rightarrow> localStorage" where
  "discardFormDraft ls = storage_remove ''jeopardyFormDraft'' ls"

text \<open>What the click handler of \<open>reset-board\<close> does to the storage, before it reloads
  the page: it removes the title and the form draft itself, then calls
  \<open>clearAllStorage\<close>.\<close>

definition resetBoard :: "localStorage \<Rightarrow> localStorage" where
  "resetBoard ls =
     clearAllStorage (removeItem (removeItem ls ''jeopardyTitle'') ''jeopardyFormDraft'')"

text \<open>
  The handler ends with \<open>location.reload()\<close>, and the page then runs its
  \<open>DOMContentLoaded\<close> handlers on the storage that the reset left. Two of them
  touch the storage; each is given by the storage it leaves and the error it raises,
  if any. A handler that raises stops there, and the next one still runs.
\<close>

fun jsTruthy :: "jsValue \<Rightarrow> bool" where
  "jsTruthy JNull = False"
| "jsTruthy (JBool b) = b"
| "jsTruthy (JNumber n) = (n \<noteq> 0)"
| "jsTruthy (JString s) = (s \<noteq> [])"
| "jsTruthy (JArray vs) = True"
| "jsTruthy (JObject kvs) = True"

text \<open>The first handler clears the title slot, then reads the form draft and the board
  text to decide whether to show the draft notice.\<close>

definition startupNotice :: "localStorage \<Rightarrow> localStorage \<times> jsError option" where
  "startupNotice ls =
     (let ls1 = clearBoardTitle ls
      in case storage_load ls1 ''jeopardyFormDraft'' JNull of
           Inl e \<Rightarrow> (ls1, Some e)
         | Inr savedDraft \<Rightarrow>
             (case loadBoardText ls1 of
                Inl e \<Rightarrow> (ls1, Some e)
              | Inr savedBoard \<Rightarrow> (ls1, None)))"

text \<open>\<open>renderStats\<close> walks over \<open>teams\<close> with \<open>forEach\<close> and reads
  \<open>team.name\<close>: it needs an array without \<open>null\<close> in it, then it saves the
  teams.\<close>

fun teamsRenderable :: "jsValue \<Rightarrow> bool" where
  "teamsRenderable (JArray ts) = (JNull \<notin> set ts)"
| "teamsRenderable v = False"

fun isArray :: "jsValue \<Rightarrow> bool" where
  "isArray (JArray vs) = True"
| "isArray v = False"

text \<open>The second handler restores a saved game: it reads the board text and the title,
  fills the title slot from the board text when the title is empty, fills the board
  and reads the used cells when there is a board text, and last loads the teams and
  renders them, which saves them again.\<close>

definition restoreTitle :: "jsValue \<Rightarrow> jsValue \<Rightarrow> localStorage \<Rightarrow> jsError + localStorage" where
  "restoreTitle saved savedTitle ls =
     (if \<not> jsTruthy savedTitle \<and> jsTruthy saved then
        (case saved of
           JString text \<Rightarrow>
             (let t = parseTitleFromText text
              in Inr (if t \<noteq> [] then saveTitle (JString t) ls else ls))
         | _ \<Rightarrow> Inl TypeError)
      else Inr ls)"

definition restoreBoard :: "jsValue \<Rightarrow> localStorage \<Rightarrow> jsError option" where
  "restoreBoard saved ls =
     (if jsTruthy saved then
        (case saved of
           JString text \<Rightarrow>
             (case loadBoardState ls of
                Inl e \<Rightarrow> Some e
              | Inr used \<Rightarrow> if isArray used then None else Some TypeError)
         | _ \<Rightarrow> Some TypeError)
      else None)"

definition restoreTeams :: "localStorage \<Rightarrow> localStorage \<times> jsError option" where
  "restoreTeams ls =
     (case loadTeams ls of
        Inl e \<Rightarrow> (ls, Some e)
      | Inr ts \<Rightarrow> if teamsRenderable ts then (saveTeams ts ls, None) else (ls, Some TypeError))"

definition startupRestore :: "localStorage \<Rightarrow> localStorage \<times> jsError option" where
  "startupRestore ls =
     (case loadBoardText ls of
        Inl e \<Rightarrow> (ls, Some e)
      | Inr saved \<Rightarrow>
          (case loadTitle ls of
             Inl e \<Rightarrow> (ls, Some e)
           | Inr savedTitle \<Rightarrow>
               (case restoreTitle saved savedTitle ls of
                  Inl e \<Rightarrow> (ls, Some e)
                | Inr ls1 \<Rightarrow>
                    (case restoreBoard saved ls1 of
                       Some e \<Rightarrow> (ls1, Some e)
                     | None \<Rightarrow> restoreTeams ls1))))"

text \<open>The storage after a page load.\<close>

definition pageLoad :: "localStorage \<Rightarrow> localStorage" where
  "pageLoad ls = fst (startupRestore (fst (startupNotice ls)))"

text \<open>The five session slots, and the operations of the program that write to the
  storage.\<close>

definition sessionSlots :: "string list" where
  "sessionSlots = [''jeopardyBoard'', ''jeopardyUsedCells'', ''jeopardyTeams'', ''jeopardyTitle'',
     ''jeopardyFormDraft'']"

datatype storageOp =
  SaveBoardState jsValue | SaveTeams jsValue | SaveBoardText jsValue | SaveTitle jsValue
  | ClearAllStorage | ClearBoardTitle | SaveFormDraft jsValue | DiscardFormDraft | ResetBoard

fun exec :: "storageOp \<Rightarrow> localStorage \<Rightarrow> localStorage" where
  "exec (SaveBoardState used) ls = saveBoardState used ls"
| "exec (SaveTeams ts) ls = saveTeams ts ls"
| "exec (SaveBoardText text) ls = saveBoardText text ls"
| "exec (SaveTitle t) ls = saveTitle t ls"
| "exec ClearAllStorage ls = clearAllStorage ls"
| "exec ClearBoardTitle ls = clearBoardTitle ls"
| "exec (SaveFormDraft formData) ls = saveFormDraft formData ls"
| "exec DiscardFormDraft ls = discardFormDraft ls"
| "exec ResetBoard ls = resetBoard ls"

text \<open>A storage in which every session slot is set, one of them to a corrupt string.\<close>

definition fullStorage :: localStorage where
  "fullStorage =
     [''jeopardyBoard'' \<mapsto> Corrupt,
      ''jeopardyUsedCells'' \<mapsto> Json (JArray [JString ''tq00'']),
      ''jeopardyTeams'' \<mapsto> Json (JArray [JObject [(''name'', JString ''Team 1''), (''score'', JNumber 0)]]),
      ''jeopardyTitle'' \<mapsto> Json (JString ''Geo''),
      ''jeopardyFormDraft'' \<mapsto> Json (JObject [(''title'', JString ''Geo'')])]"

section \<open>Writing a board as text\<close>

text \<open>
  The text that \<open>createBoardTextFromForm\<close> (and \<open>createBoardFromForm\<close>) builds
  once the form has passed its checks: \<open>cats\<close> (the array \<open>categories\<close>) holds
  the five names and \<open>allQuestions\<close> the five lists of clues, filled side by side, so
  \<open>allQuestions[catIndex]\<close> is the partner of \<open>categories[catIndex]\<close>.
\<close>

definition rowText :: "clue \<Rightarrow> string" where
  "rowText q = valueText q @ ''|'' @ question q @ ''|'' @ answer q @ [LF]"

definition categoryText :: "string \<times> clue list \<Rightarrow> string" where
  "categoryText cq = ''Category: '' @ fst cq @ [LF] @ concat (map rowText (snd cq)) @ [LF]"

definition boardText :: "string \<Rightarrow> string list \<Rightarrow> clue list list \<Rightarrow> string" where
  "boardText boardTitle cats allQuestions =
     ''Title: '' @ boardTitle @ [LF, LF] @ concat (map categoryText (zip cats allQuestions))"

section \<open>Reading a board from text\<close>

record boardParse =
  boardCategories :: "string list"
  questions :: "clue list list"
  boardCurrentCategory :: "string option"
  currentQuestions :: "clue list"

definition initBoardParse :: boardParse where
  "initBoardParse = \<lparr>boardCategories = [], questions = [], boardCurrentCategory = None,
     currentQuestions = []\<rparr>"

text \<open>\<open>if (currentCategory) { categories.push(...); questions.push(...) }\<close>\<close>

definition pushCurrent :: "boardParse \<Rightarrow> string list \<times> clue list list" where
  "pushCurrent st =
     (if truthy (boardCurrentCategory st)
      then (boardCategories st @ [the (boardCurrentCategory st)],
            questions st @ [currentQuestions st])
      else (boardCategories st, questions st))"

text \<open>One iteration of the parsing loop of \<open>populateJeopardyBoardFromText\<close>.\<close>

definition populateStep :: "boardParse \<Rightarrow> string \<Rightarrow> boardParse" where
  "populateStep st line0 =
     (let line = trim line0
      in if line = [] then st
         else if startsWith (toLowerCase line) ''category:'' then
           st\<lparr>boardCategories := fst (pushCurrent st),
              questions := snd (pushCurrent st),
              boardCurrentCategory := Some (trim (drop 9 line)),
              currentQuestions := []\<rparr>
         else if testRow line then
           (let parts = splitOn (CHR ''|'') line
            in if length parts \<ge> 3
               then st\<lparr>currentQuestions := currentQuestions st @ [parseClue parts]\<rparr>
               else st)
         else st)"

text \<open>The categories and their questions after the loop and the last push.\<close>

definition parseBoardText :: "string \<Rightarrow> string list \<times> clue list list" where
  "parseBoardText text = pushCurrent (foldl populateStep initBoardParse (splitLines text))"

section \<open>The board on the page\<close>

text \<open>A cell of the board is the element \<open>tq{row}{col}\<close>: its heading \<open>h3\<close> shows
  the value, and two hidden elements hold the question and the answer. The page is a
  map from element ids to cells.\<close>

record cell =
  h3 :: string
  q :: string
  aq :: string

type_synonym gameBody = "string \<rightharpoonup> cell"

definition digitChar :: "nat \<Rightarrow> char" where
  "digitChar n = ''0123456789'' ! n"

text \<open>A number inside a template literal: its decimal digits.\<close>

fun showNat :: "nat \<Rightarrow> string" where
  "showNat n = (if n < 10 then [digitChar n] else showNat (n div 10) @ [digitChar (n mod 10)])"

declare showNat.simps [simp del]

definition cellId :: "nat \<Rightarrow> nat \<Rightarrow> string" where
  "cellId row col = ''tq'' @ showNat row @ showNat col"

definition generateGameBoard :: gameBody where
  "generateGameBoard =
     foldl (\<lambda>body row.
        foldl (\<lambda>body col.
           body(cellId row col \<mapsto> \<lparr>h3 = showNat ((row + 1) * 100), q = [], aq = []\<rparr>))
          body [0..<5])
       Map.empty [0..<5]"

text \<open>\<open>if (cell) { h3.textContent = q.value; ... }\<close>\<close>

definition fillCell :: "gameBody \<Rightarrow> nat \<Rightarrow> nat \<Rightarrow> clue \<Rightarrow> gameBody" where
  "fillCell body row col c =
     (case body (cellId row col) of
        None \<Rightarrow> body
      | Some x \<Rightarrow> body(cellId row col \<mapsto> x\<lparr>h3 := valueText c, q := question c, aq := answer c\<rparr>))"

definition fillColumn :: "gameBody \<Rightarrow> nat \<Rightarrow> clue list \<Rightarrow> gameBody" where
  "fillColumn body col cs = foldl (\<lambda>body row. fillCell body row col (cs ! row)) body [0..<length cs]"

definition populateCells :: "clue list list \<Rightarrow> gameBody \<Rightarrow> gameBody" where
  "populateCells qs body = foldl (\<lambda>body col. fillColumn body col (qs ! col)) body [0..<length qs]"

text \<open>The cells after \<open>populateJeopardyBoardFromText\<close>: the board is generated
  first, then filled from the parsed questions.\<close>

definition populateJeopardyBoardFromText :: "string \<Rightarrow> gameBody" where
  "populateJeopardyBoardFromText text =
     populateCells (snd (parseBoardText text)) generateGameBoard"

text \<open>The complete sample text with 999 as the value of its first row.\<close>

definition riversOdd :: "string \<times> string list" where
  "riversOdd = (''Category: Rivers'',
     [''999|Longest river|Nile'', ''200|River through Paris|Seine'',
      ''300|River through London|Thames'', ''400|River through Rome|Tiber'',
      ''500|River through Vienna|Danube'', []])"

definition geoTextOdd :: string where
  "geoTextOdd = unlines (''Title: Geo'' # [] #
     concat (map categoryBlock [riversOdd, peaksBlock, lakesBlock, citiesBlock, seasBlock]))"

text \<open>A board of five categories of five clues, and the same board with a bar inside
  its first question.\<close>

definition sampleClues :: "clue list" where
  "sampleClues = map (\<lambda>v. \<lparr>valueText = v, question = ''clue'', answer = ''response''\<rparr>)
     [''100'', ''200'', ''300'', ''400'', ''500'']"

definition sampleCategories :: "string list" where
  "sampleCategories = [''A'', ''B'', ''C'', ''D'', ''E'']"

definition sampleQuestions :: "clue list list" where
  "sampleQuestions = replicate 5 sampleClues"

definition barClues :: "clue list" where
  "barClues = \<lparr>valueText = ''100'', question = ''either|or'', answer = ''response''\<rparr> # tl sampleClues"

definition barQuestions :: "clue list list" where
  "barQuestions = barClues # replicate 4 sampleClues"

text \<open>The cell that a clue leaves behind.\<close>

definition cellOf :: "clue \<Rightarrow> cell" where
  "cellOf c = \<lparr>h3 = valueText c, q = question c, aq = answer c\<rparr>"

section \<open>Valid boards\<close>

text \<open>A valid board in the words of the specification: five categories, each with
  five clues whose question and answer are non-empty and trimmed.\<close>

definition validBoard :: "string list \<Rightarrow> clue list list \<Rightarrow> bool" where
  "validBoard cats allQuestions =
     (length cats = 5 \<and> length allQuestions = 5 \<and>
      list_all (\<lambda>qs. length qs = 5 \<and>
         list_all (\<lambda>c. question c \<noteq> [] \<and> trim (question c) = question c \<and>
                        answer c \<noteq> [] \<and> trim (answer c) = answer c) qs) allQuestions)"

section \<open>The text format over all code units\<close>

text \<open>
  Titles, names and clue texts are free text in any script, and some code units above
  255 matter to the functions that read a text back: they are white space for
  \<open>trim\<close> and \<open>\s\<close>, or line terminators for the title pattern. This section
  gives the writer and the two readers of a board text over all UTF-16 code units,
  a code unit being a natural number (below 65536; nothing depends on the bound).
\<close>

type_synonym ustring = "nat list"

text \<open>An ASCII literal of the program as code units.\<close>

definition ustr :: "string \<Rightarrow> ustring" where
  "ustr s = map of_char s"

definition LF16 :: nat where
  "LF16 = 10"

definition CR16 :: nat where
  "CR16 = 13"

definition BAR16 :: nat where
  "BAR16 = 124"

text \<open>Line terminators are LF, CR, U+2028 and U+2029. White space, for \<open>trim\<close>
  and for the class \<open>\s\<close>, is TAB, VT, FF, SPACE, NBSP, U+1680, U+2000 to U+200A,
  U+202F, U+205F, U+3000 and U+FEFF together with the line terminators.\<close>

definition isLineTerminator16 :: "nat \<Rightarrow> bool" where
  "isLineTerminator16 c = (c \<in> set [10, 13, 8232, 8233])"

definition isWhiteSpace16 :: "nat \<Rightarrow> bool" where
  "isWhiteSpace16 c =
     (c \<in> set [9, 11, 12, 32, 160, 5760, 8192, 8193, 8194, 8195, 8196, 8197, 8198, 8199, 8200,
               8201, 8202, 8239, 8287, 12288, 65279] \<or>
      isLineTerminator16 c)"

definition trim16 :: "ustring \<Rightarrow> ustring" where
  "trim16 s = rev (dropWhile isWhiteSpace16 (rev (dropWhile isWhiteSpace16 s)))"

text \<open>\<open>text.split(/\r?\n/)\<close> splits at LF and CR LF only.\<close>

fun splitLines16 :: "ustring \<Rightarrow> ustring list" where
  "splitLines16 [] = [[]]"
| "splitLines16 [c] = (if c = LF16 then [[], []] else [[c]])"
| "splitLines16 (c # d # cs) =
     (if c = LF16 then [] # splitLines16 (d # cs)
      else if c = CR16 \<and> d = LF16 then [] # splitLines16 cs
      else consHead c (splitLines16 (d # cs)))"

definition isDigit16 :: "nat \<Rightarrow> bool" where
  "isDigit16 c = (48 \<le> c \<and> c \<le> 57)"

definition testRow16 :: "ustring \<Rightarrow> bool" where
  "testRow16 line =
     (takeWhile isDigit16 line \<noteq> [] \<and>
      (case dropWhile isDigit16 line of [] \<Rightarrow> False | c # _ \<Rightarrow> c = BAR16))"

text \<open>
  \<open>toLowerCase\<close> follows the case table of Unicode, which is no part of the program:
  it is a parameter \<open>lower\<close> of the reader. What the reader needs of it is that it
  lowers A to Z and leaves every other code unit below 128 alone, one code unit for
  one, as long as no code unit from 128 on has come before.
\<close>

definition asciiLower :: "nat \<Rightarrow> nat" where
  "asciiLower c = (if 65 \<le> c \<and> c \<le> 90 then c + 32 else c)"

definition lowersAscii :: "(ustring \<Rightarrow> ustring) \<Rightarrow> bool" where
  "lowersAscii lower =
     (\<forall>s. take (length (takeWhile (\<lambda>c. c < 128) s)) (lower s) =
          map asciiLower (takeWhile (\<lambda>c. c < 128) s))"

record clue16 =
  valueText16 :: ustring
  question16 :: ustring
  answer16 :: ustring

definition parseClue16 :: "ustring list \<Rightarrow> clue16" where
  "parseClue16 parts =
     \<lparr>valueText16 = trim16 (parts ! 0), question16 = trim16 (parts ! 1),
      answer16 = trim16 (joinWith BAR16 (drop 2 parts))\<rparr>"

record boardParse16 =
  boardCategories16 :: "ustring list"
  questions16 :: "clue16 list list"
  boardCurrentCategory16 :: "ustring option"
  currentQuestions16 :: "clue16 list"

definition initBoardParse16 :: boardParse16 where
  "initBoardParse16 = \<lparr>boardCategories16 = [], questions16 = [],
     boardCurrentCategory16 = None, currentQuestions16 = []\<rparr>"

definition pushCurrent16 :: "boardParse16 \<Rightarrow> ustring list \<times> clue16 list list" where
  "pushCurrent16 st =
     (if truthy (boardCurrentCategory16 st)
      then (boardCategories16 st @ [the (boardCurrentCategory16 st)],
            questions16 st @ [currentQuestions16 st])
      else (boardCategories16 st, questions16 st))"

text \<open>The parsing loop of \<open>populateJeopardyBoardFromText\<close>.\<close>

definition populateStep16 :: "(ustring \<Rightarrow> ustring) \<Rightarrow> boardParse16 \<Rightarrow> ustring \<Rightarrow> boardParse16" where
  "populateStep16 lower st line0 =
     (let line = trim16 line0
      in if line = [] then st
         else if startsWith (lower line) (ustr ''category:'') then
           st\<lparr>boardCategories16 := fst (pushCurrent16 st),
              questions16 := snd (pushCurrent16 st),
              boardCurrentCategory16 := Some (trim16 (drop 9 line)),
              currentQuestions16 := []\<rparr>
         else if testRow16 line then
           (let parts = splitOn BAR16 line
            in if length parts \<ge> 3
               then st\<lparr>currentQuestions16 := currentQuestions16 st @ [parseClue16 parts]\<rparr>
               else st)
         else st)"

definition parseBoardText16 :: "(ustring \<Rightarrow> ustring) \<Rightarrow> ustring \<Rightarrow> ustring list \<times> clue16 list list" where
  "parseBoardText16 lower text =
     pushCurrent16 (foldl (populateStep16 lower) initBoardParse16 (splitLines16 text))"

text \<open>
  The title pattern \<open>/^[\s\t]*title\s*:(.*)$/im\<close>. Under the flag \<open>i\<close> a code unit
  matches a letter of \<open>title\<close> when both have the same canonical form; the
  canonical form of a code unit from 128 on is never below 128, so only the letter
  and its ASCII capital match: the test is \<open>asciiLower\<close> on the five code units.
\<close>

definition matchTitleAt16 :: "ustring \<Rightarrow> ustring option" where
  "matchTitleAt16 s =
     (let s1 = dropWhile isWhiteSpace16 s
      in if startsWith (map asciiLower s1) (ustr ''title'') then
           (case dropWhile isWhiteSpace16 (drop 5 s1) of
              [] \<Rightarrow> None
            | c # rest \<Rightarrow>
                if c = 58 then Some (takeWhile (\<lambda>x. \<not> isLineTerminator16 x) rest)
                else None)
         else None)"

fun searchTitle16 :: "bool \<Rightarrow> ustring \<Rightarrow> ustring option" where
  "searchTitle16 atStart [] = (if atStart then matchTitleAt16 [] else None)"
| "searchTitle16 atStart (c # cs) =
     (case (if atStart then matchTitleAt16 (c # cs) else None) of
        Some m \<Rightarrow> Some m
      | None \<Rightarrow> searchTitle16 (isLineTerminator16 c) cs)"

definition parseTitleFromText16 :: "ustring \<Rightarrow> ustring" where
  "parseTitleFromText16 text =
     (case searchTitle16 True text of None \<Rightarrow> [] | Some m \<Rightarrow> trim16 m)"

text \<open>The writer, \<open>createBoardTextFromForm\<close> after its checks.\<close>

definition rowText16 :: "clue16 \<Rightarrow> ustring" where
  "rowText16 c = valueText16 c @ [BAR16] @ question16 c @ [BAR16] @ answer16 c @ [LF16]"

definition categoryText16 :: "ustring \<times> clue16 list \<Rightarrow> ustring" where
  "categoryText16 cq =
     ustr ''Category: '' @ fst cq @ [LF16] @ concat (map rowText16 (snd cq)) @ [LF16]"

definition boardText16 :: "ustring \<Rightarrow> ustring list \<Rightarrow> clue16 list list \<Rightarrow> ustring" where
  "boardText16 boardTitle cats allQuestions =
     ustr ''Title: '' @ boardTitle @ [LF16, LF16] @
     concat (map categoryText16 (zip cats allQuestions))"

subsection \<open>Boards that survive the text format\<close>

text \<open>A title is trimmed and has no line terminator; a category name is non-empty,
  trimmed and has no LF; a value is a non-empty run of digits; a question is
  non-empty, trimmed and has neither a bar nor an LF; an answer is non-empty, trimmed
  and has no LF.\<close>

definition titleOK :: "ustring \<Rightarrow> bool" where
  "titleOK t = (trim16 t = t \<and> list_all (\<lambda>x. \<not> isLineTerminator16 x) t)"

definition nameOK :: "ustring \<Rightarrow> bool" where
  "nameOK c = (c \<noteq> [] \<and> trim16 c = c \<and> LF16 \<notin> set c)"

definition clueOK :: "clue16 \<Rightarrow> bool" where
  "clueOK c =
     (valueText16 c \<noteq> [] \<and> list_all isDigit16 (valueText16 c) \<and>
      question16 c \<noteq> [] \<and> trim16 (question16 c) = question16 c \<and>
      BAR16 \<notin> set (question16 c) \<and> LF16 \<notin> set (question16 c) \<and>
      answer16 c \<noteq> [] \<and> trim16 (answer16 c) = answer16 c \<and> LF16 \<notin> set (answer16 c))"

text \<open>The lines of a board text.\<close>

definition rowLine :: "clue16 \<Rightarrow> ustring" where
  "rowLine c = valueText16 c @ [BAR16] @ question16 c @ [BAR16] @ answer16 c"

definition categoryLine :: "ustring \<Rightarrow> ustring" where
  "categoryLine c = ustr ''Category: '' @ c"

definition blockLines :: "ustring \<times> clue16 list \<Rightarrow> ustring list" where
  "blockLines cq = categoryLine (fst cq) # map rowLine (snd cq) @ [[]]"

definition titleLine :: "ustring \<Rightarrow> ustring" where
  "titleLine t = ustr ''Title: '' @ t"

text \<open>A board in a script beyond Latin-1, and a lowering function for it: the ASCII
  one, which satisfies what the reader needs.\<close>

definition wideTitle :: ustring where
  "wideTitle = [1043, 1077, 1086]"

definition wideCategories :: "ustring list" where
  "wideCategories = [ustr ''A'', [931, 945], ustr ''C'', ustr ''D'', [26085, 26412]]"

definition wideClues :: "clue16 list" where
  "wideClues = map (\<lambda>v. \<lparr>valueText16 = ustr v, question16 = [304, 32, 8232, 946],
       answer16 = ustr ''x|y'' @ [13, 1103]\<rparr>)
     [''100'', ''200'', ''300'', ''400'', ''500'']"

definition wideQuestions :: "clue16 list list" where
  "wideQuestions = replicate 5 wideClues"

section \<open>Properties of the validators\<close>

subsection \<open>The counting loop on a text made of categories\<close>

lemma countStep_category:
  "isCategoryLine l \<Longrightarrow>
   countStep st l =
     \<lparr>categoryCount = categoryCount st + 1,
      hasIncompleteCategory =
        (hasIncompleteCategory st \<or> (categoryCount st > 0 \<and> currentCategoryQuestions st < 5)),
      currentCategoryQuestions = 0\<rparr>"
  by (cases st) (auto simp add: countStep_def isCategoryLine_def Let_def)

lemma countStep_other:
  "\<not> isCategoryLine l \<Longrightarrow>
   countStep st l =
     st\<lparr>currentCategoryQuestions := currentCategoryQuestions st + (if completeRow l then 1 else 0)\<rparr>"
  by (cases st) (auto simp add: countStep_def isCategoryLine_def completeRow_def Let_def)

lemma countStep_body:
  "\<forall>l \<in> set body. \<not> isCategoryLine l \<Longrightarrow>
   foldl countStep st body =
     st\<lparr>currentCategoryQuestions := currentCategoryQuestions st + completeRows body\<rparr>"
proof (induction body arbitrary: st)
  case Nil
  then show ?case by (simp add: completeRows_def)
next
  case (Cons l body)
  then show ?case by (simp add: countStep_other completeRows_def)
qed

lemma countStep_block:
  "wellFormedBlock b \<Longrightarrow>
   foldl countStep st (categoryBlock b) =
     \<lparr>categoryCount = categoryCount st + 1,
      hasIncompleteCategory =
        (hasIncompleteCategory st \<or> (categoryCount st > 0 \<and> currentCategoryQuestions st < 5)),
      currentCategoryQuestions = completeRows (snd b)\<rparr>"
  by (simp add: wellFormedBlock_def categoryBlock_def countStep_category countStep_body)

lemma countStep_blocks:
  assumes "\<forall>b \<in> set blocks. wellFormedBlock b"
    and "blocks \<noteq> []"
    and "categoryCount st = 0" and "\<not> hasIncompleteCategory st"
  shows "foldl countStep st (concat (map categoryBlock blocks)) =
     \<lparr>categoryCount = length blocks,
      hasIncompleteCategory = (\<exists>b \<in> set (butlast blocks). completeRows (snd b) < 5),
      currentCategoryQuestions = completeRows (snd (last blocks))\<rparr>"
  using assms(1,2)
proof (induction blocks rule: rev_induct)
  case Nil
  then show ?case by simp
next
  case (snoc b blocks)
  show ?case
  proof (cases "blocks = []")
    case True
    with snoc.prems assms(3,4) show ?thesis
      by (simp add: countStep_block)
  next
    case False
    with snoc have IH: "foldl countStep st (concat (map categoryBlock blocks)) =
       \<lparr>categoryCount = length blocks,
        hasIncompleteCategory = (\<exists>b \<in> set (butlast blocks). completeRows (snd b) < 5),
        currentCategoryQuestions = completeRows (snd (last blocks))\<rparr>"
      by simp
    have wf: "wellFormedBlock b" using snoc.prems by simp
    have split: "set blocks = insert (last blocks) (set (butlast blocks))"
      using False by (metis append_butlast_last_id list.simps(15) rotate1.simps(2) set_rotate1)
    show ?thesis
      using False by (auto simp add: IH countStep_block [OF wf] split)
  qed
qed

lemma isTitleLine_nonempty: "isTitleLine t \<Longrightarrow> t \<noteq> []"
  by (auto simp add: isTitleLine_def startsWith_def trim_def toLowerCase_def)

lemma startsWith_Nil: "startsWith s [] = True"
  by (simp add: startsWith_def)

lemma startsWith_Cons:
  "startsWith s (c # p) = (case s of [] \<Rightarrow> False | d # r \<Rightarrow> d = c \<and> startsWith r p)"
  by (cases s) (auto simp add: startsWith_def)

lemma isTitleLine_not_category: "isTitleLine t \<Longrightarrow> \<not> isCategoryLine t"
  by (cases "toLowerCase (trim t)")
     (simp_all add: isTitleLine_def isCategoryLine_def startsWith_Cons)

lemma countLoop_shape:
  assumes "isTitleLine t" and "\<forall>l \<in> set pre. \<not> isCategoryLine l"
    and "\<forall>b \<in> set blocks. wellFormedBlock b" and "blocks \<noteq> []"
  shows "countLoop (t # pre @ concat (map categoryBlock blocks)) =
     \<lparr>categoryCount = length blocks,
      hasIncompleteCategory = (\<exists>b \<in> set (butlast blocks). completeRows (snd b) < 5),
      currentCategoryQuestions = completeRows (snd (last blocks))\<rparr>"
proof -
  have pre: "\<forall>l \<in> set (t # pre). \<not> isCategoryLine l"
    using assms(1,2) by (simp add: isTitleLine_not_category)
  have "countLoop (t # pre @ concat (map categoryBlock blocks)) =
        foldl countStep (foldl countStep initCounters (t # pre)) (concat (map categoryBlock blocks))"
    by (simp add: countLoop_def)
  also have "\<dots> = \<lparr>categoryCount = length blocks,
      hasIncompleteCategory = (\<exists>b \<in> set (butlast blocks). completeRows (snd b) < 5),
      currentCategoryQuestions = completeRows (snd (last blocks))\<rparr>"
    by (rule countStep_blocks [OF assms(3,4)])
       (simp_all only: countStep_body [OF pre], simp_all add: initCounters_def)
  finally show ?thesis .
qed

lemma countLoop_no_blocks:
  assumes "isTitleLine t" and "\<forall>l \<in> set pre. \<not> isCategoryLine l"
  shows "categoryCount (countLoop (t # pre)) = 0"
proof -
  have pre: "\<forall>l \<in> set (t # pre). \<not> isCategoryLine l"
    using assms by (simp add: isTitleLine_not_category)
  show ?thesis
    unfolding countLoop_def countStep_body [OF pre] by (simp add: initCounters_def)
qed

text \<open>The verdict of \<open>validateGameFile\<close> on any text of that shape.\<close>

lemma validateGameFile_shape:
  assumes "gameTextShape fileContent t pre blocks"
  shows "validateGameFile fileContent =
     (if length blocks < 5 then Invalid TooFewCategories
      else if \<exists>b \<in> set blocks. completeRows (snd b) < 5 then Invalid IncompleteCategory
      else Valid Complete)"
proof -
  from assms have lines: "splitLines fileContent = t # pre @ concat (map categoryBlock blocks)"
    and nomark: "\<not> (\<exists>l \<in> set (splitLines fileContent). trim l = draftMarker)"
    and t: "isTitleLine t" and pre: "\<forall>l \<in> set pre. \<not> isCategoryLine l"
    and wf: "\<forall>b \<in> set blocks. wellFormedBlock b"
    by (simp_all add: gameTextShape_def)
  have first: "firstLineIsTitle (splitLines fileContent)"
    using t isTitleLine_nonempty [OF t] by (simp add: lines firstLineIsTitle_def isTitleLine_def)
  show ?thesis
  proof (cases "blocks = []")
    case True
    then show ?thesis
      using nomark first countLoop_no_blocks [OF t pre]
      by (simp add: validateGameFile_def Let_def lines)
  next
    case False
    have all: "(\<exists>b \<in> set blocks. completeRows (snd b) < 5) \<longleftrightarrow>
       (\<exists>b \<in> set (butlast blocks). completeRows (snd b) < 5) \<or> completeRows (snd (last blocks)) < 5"
    proof -
      have "set blocks = insert (last blocks) (set (butlast blocks))"
        using False by (metis append_butlast_last_id list.simps(15) rotate1.simps(2) set_rotate1)
      then show ?thesis by auto
    qed
    have "validateGameFile fileContent =
       (let st = countLoop (t # pre @ concat (map categoryBlock blocks));
            incomplete = (hasIncompleteCategory st \<or> currentCategoryQuestions st < 5)
        in if categoryCount st < 5 then Invalid TooFewCategories
           else if incomplete then Invalid IncompleteCategory
           else Valid Complete)"
      using nomark first unfolding validateGameFile_def Let_def lines [symmetric] by simp
    then show ?thesis
      by (simp add: countLoop_shape [OF t pre wf False] all Let_def)
  qed
qed

text \<open>Every text that has no marker line and starts with a title line has that shape.\<close>

lemma lines_decompose:
  "\<exists>pre blocks. ls = pre @ concat (map categoryBlock blocks) \<and>
     (\<forall>l \<in> set pre. \<not> isCategoryLine l) \<and> (\<forall>b \<in> set blocks. wellFormedBlock b)"
proof (induction ls)
  case Nil
  have "[] = [] @ concat (map categoryBlock []) \<and>
     (\<forall>l \<in> set []. \<not> isCategoryLine l) \<and> (\<forall>b \<in> set []. wellFormedBlock b)"
    by simp
  then show ?case by blast
next
  case (Cons l ls)
  then obtain pre blocks where ls: "ls = pre @ concat (map categoryBlock blocks)"
    and pre: "\<forall>l \<in> set pre. \<not> isCategoryLine l"
    and blocks: "\<forall>b \<in> set blocks. wellFormedBlock b"
    by blast
  show ?case
  proof (cases "isCategoryLine l")
    case True
    have "l # ls = [] @ concat (map categoryBlock ((l, pre) # blocks))"
      by (simp add: ls categoryBlock_def)
    moreover have "\<forall>b \<in> set ((l, pre) # blocks). wellFormedBlock b"
      using True pre blocks by (simp add: wellFormedBlock_def)
    moreover have "\<forall>l \<in> set []. \<not> isCategoryLine l"
      by simp
    ultimately show ?thesis by blast
  next
    case False
    have "l # ls = (l # pre) @ concat (map categoryBlock blocks)"
      by (simp add: ls)
    moreover have "\<forall>x \<in> set (l # pre). \<not> isCategoryLine x"
      using False pre by simp
    ultimately show ?thesis using blocks by blast
  qed
qed

lemma gameTextShape_exists:
  assumes "firstLineIsTitle (splitLines fileContent)"
    and "\<forall>l \<in> set (splitLines fileContent). trim l \<noteq> draftMarker"
  shows "\<exists>t pre blocks. gameTextShape fileContent t pre blocks"
proof -
  from assms(1) obtain t ls where lines: "splitLines fileContent = t # ls" and t: "isTitleLine t"
    by (cases "splitLines fileContent") (simp_all add: firstLineIsTitle_def isTitleLine_def)
  from lines_decompose [of ls] obtain pre blocks where
    "ls = pre @ concat (map categoryBlock blocks)"
    "\<forall>l \<in> set pre. \<not> isCategoryLine l" "\<forall>b \<in> set blocks. wellFormedBlock b"
    by blast
  with lines t assms(2) have "gameTextShape fileContent t pre blocks"
    by (simp add: gameTextShape_def)
  then show ?thesis by blast
qed

lemma validateDraftFile_total: "validateDraftFile fileContent = Valid Draft"
  by (simp add: validateDraftFile_def Let_def)

subsection \<open>Claims about the validators\<close>

text \<open>
  Claim C3. A text with a line whose trimmed content is exactly the draft marker is
  rejected by \<open>validateGameFile\<close> with the draft-marker reason, whatever else the
  text contains.
\<close>

theorem validateGameFile_marker_rejected:
  assumes "line \<in> set (splitLines fileContent)" and "trim line = draftMarker"
  shows "validateGameFile fileContent = Invalid DraftMarkerPresent"
proof -
  from assms have "\<exists>l \<in> set (splitLines fileContent). trim l = draftMarker"
    by blast
  then show ?thesis
    by (simp add: validateGameFile_def)
qed

theorem validateGameFile_marker_rejected_witness:
  "''  [JEOPARDY DRAFT]'' \<in> set (splitLines geoTextMarked) \<and>
   trim ''  [JEOPARDY DRAFT]'' = draftMarker \<and>
   validateGameFile geoTextMarked = Invalid DraftMarkerPresent"
proof -
  have h1: "''  [JEOPARDY DRAFT]'' \<in> set (splitLines geoTextMarked)"
    by code_simp
  have h2: "trim ''  [JEOPARDY DRAFT]'' = draftMarker"
    by code_simp
  show ?thesis
    using h1 h2 validateGameFile_marker_rejected [OF h1 h2] by simp
qed

text \<open>
  Claim C2, as the program has it. A marker-free text that starts with a title line
  and holds at least five categories, each with at least five counted clue rows (rows
  whose second and third bar-separated fields are not blank), is accepted by
  \<open>validateGameFile\<close> as a complete game, and \<open>validateDraftFile\<close> classifies it
  as a draft: that validator returns the type draft on every path.
\<close>

theorem complete_text_verdicts:
  assumes "gameTextShape fileContent t pre blocks"
    and "5 \<le> length blocks"
    and "\<forall>b \<in> set blocks. 5 \<le> completeRows (snd b)"
  shows "validateGameFile fileContent = Valid Complete \<and>
         validateDraftFile fileContent = Valid Draft"
proof -
  have "\<not> (\<exists>b \<in> set blocks. completeRows (snd b) < 5)"
    using assms(3) by (auto simp add: not_less)
  then have "validateGameFile fileContent = Valid Complete"
    using assms(2) by (simp add: validateGameFile_shape [OF assms(1)])
  then show ?thesis
    by (simp add: validateDraftFile_total)
qed

lemma geoText_shape: "gameTextShape geoText ''Title: Geo'' [[]] geoBlocks"
  by code_simp

lemma geoBlocks_rows: "map (completeRows \<circ> snd) geoBlocks = [5, 5, 5, 5, 5]"
  by code_simp

lemma geoBlocks_complete: "\<forall>b \<in> set geoBlocks. 5 \<le> completeRows (snd b)"
proof -
  have "\<forall>n \<in> set (map (completeRows \<circ> snd) geoBlocks). 5 \<le> n"
    unfolding geoBlocks_rows by simp
  then show ?thesis by simp
qed

theorem complete_text_verdicts_witness:
  "gameTextShape geoText ''Title: Geo'' [[]] geoBlocks \<and>
   5 \<le> length geoBlocks \<and>
   map (completeRows \<circ> snd) geoBlocks = [5, 5, 5, 5, 5] \<and>
   validateGameFile geoText = Valid Complete \<and>
   validateDraftFile geoText = Valid Draft"
proof -
  have len: "5 \<le> length geoBlocks"
    by (simp add: geoBlocks_def)
  show ?thesis
    using geoText_shape len geoBlocks_rows
      complete_text_verdicts [OF geoText_shape len geoBlocks_complete]
    by simp
qed

text \<open>
  The claim as the specification words it fails: on the complete sample text the
  upload classifier answers draft, not complete.
\<close>

theorem classify_complete_counterexample:
  "gameTextShape geoText ''Title: Geo'' [[]] geoBlocks \<and>
   length geoBlocks = 5 \<and>
   map (completeRows \<circ> snd) geoBlocks = [5, 5, 5, 5, 5] \<and>
   validateDraftFile geoText \<noteq> Valid Complete"
proof -
  have "length geoBlocks = 5"
    by (simp add: geoBlocks_def)
  then show ?thesis
    using geoText_shape geoBlocks_rows by (simp add: validateDraftFile_total)
qed

text \<open>
  Claim C4. A marker-free text that starts with a title line and holds at least five
  categories is rejected by \<open>validateGameFile\<close> with the incomplete-category
  reason as soon as one of its categories, the last or any other, has fewer than five
  counted clue rows.
\<close>

theorem deficient_category_rejected:
  assumes "gameTextShape fileContent t pre blocks"
    and "5 \<le> length blocks"
    and "b \<in> set blocks" and "completeRows (snd b) < 5"
  shows "validateGameFile fileContent = Invalid IncompleteCategory"
proof -
  have "\<exists>b \<in> set blocks. completeRows (snd b) < 5"
    using assms(3,4) by blast
  then show ?thesis
    using assms(2) by (simp add: validateGameFile_shape [OF assms(1)])
qed

lemma geoTextShort_shape: "gameTextShape geoTextShort ''Title: Geo'' [[]] geoBlocksShort"
  by code_simp

theorem deficient_category_rejected_witness:
  "gameTextShape geoTextShort ''Title: Geo'' [[]] geoBlocksShort \<and>
   5 \<le> length geoBlocksShort \<and>
   peaksShort \<in> set geoBlocksShort \<and> completeRows (snd peaksShort) < 5 \<and>
   validateGameFile geoTextShort = Invalid IncompleteCategory"
proof -
  have len: "5 \<le> length geoBlocksShort"
    by (simp add: geoBlocksShort_def)
  have mem: "peaksShort \<in> set geoBlocksShort"
    by (simp add: geoBlocksShort_def)
  have few: "completeRows (snd peaksShort) < 5"
    by code_simp
  show ?thesis
    using geoTextShort_shape len mem few
      deficient_category_rejected [OF geoTextShort_shape len mem few]
    by simp
qed




section \<open>Properties of title extraction and of the import loops\<close>

subsection \<open>The title pattern keeps its first match\<close>

lemma dropWhile_append_keep:
  "dropWhile P xs \<noteq> [] \<Longrightarrow> dropWhile P (xs @ ys) = dropWhile P xs @ ys"
  by (induction xs) auto

lemma startsWith_length: "startsWith s p \<Longrightarrow> length p \<le> length s"
proof -
  assume "startsWith s p"
  then have "length (take (length p) s) = length p"
    unfolding startsWith_def by (rule arg_cong)
  then show ?thesis by simp
qed

lemma startsWith_lower_append:
  "length p \<le> length s \<Longrightarrow>
   startsWith (toLowerCase (s @ x)) p = startsWith (toLowerCase s) p"
  by (simp add: startsWith_def toLowerCase_def)

lemma length_toLowerCase: "length (toLowerCase s) = length s"
  by (simp add: toLowerCase_def)

lemma matchTitleAt_Nil: "matchTitleAt [] = None"
  by (simp add: matchTitleAt_def startsWith_def)

lemma matchTitleAt_parts:
  assumes "s1 = dropWhile isWhiteSpace s" and "s2 = dropWhile isWhiteSpace (drop 5 s1)"
  shows "matchTitleAt s =
     (if startsWith (toLowerCase s1) ''title'' then
        (case s2 of
           [] \<Rightarrow> None
         | c # rest \<Rightarrow>
             if c = CHR '':'' then Some (takeWhile (\<lambda>x. \<not> isLineTerminator x) rest)
             else None)
      else None)"
  unfolding matchTitleAt_def Let_def assms by (rule refl)

lemma matchTitleAt_append:
  assumes "matchTitleAt s = Some m"
  shows "matchTitleAt (s @ LF # appended) = Some m"
proof -
  define s1 where "s1 = dropWhile isWhiteSpace s"
  define s2 where "s2 = dropWhile isWhiteSpace (drop 5 s1)"
  note parts = matchTitleAt_parts [OF s1_def s2_def]
  from assms have word: "startsWith (toLowerCase s1) ''title''"
    unfolding parts by (simp split: if_splits)
  from startsWith_length [OF word] have len: "5 \<le> length s1"
    by (simp add: length_toLowerCase)
  then have "s1 \<noteq> []" by auto
  then have ne: "dropWhile isWhiteSpace s \<noteq> []" unfolding s1_def .
  have d1: "dropWhile isWhiteSpace (s @ LF # appended) = s1 @ LF # appended"
    unfolding s1_def using ne by (rule dropWhile_append_keep)
  have word': "startsWith (toLowerCase (s1 @ LF # appended)) ''title''"
    using word len by (simp add: startsWith_lower_append)
  have "\<exists>rest. s2 = CHR '':'' # rest \<and> m = takeWhile (\<lambda>x. \<not> isLineTerminator x) rest"
    using assms word unfolding parts by (cases s2) (simp_all split: if_splits)
  then obtain rest where s2: "s2 = CHR '':'' # rest"
    and m: "m = takeWhile (\<lambda>x. \<not> isLineTerminator x) rest"
    by blast
  have "s2 \<noteq> []" using s2 by simp
  then have "dropWhile isWhiteSpace (drop 5 s1 @ LF # appended) = s2 @ LF # appended"
    unfolding s2_def by (rule dropWhile_append_keep)
  moreover have "drop 5 (s1 @ LF # appended) = drop 5 s1 @ LF # appended"
    using len by simp
  ultimately have d2: "dropWhile isWhiteSpace (drop 5 (s1 @ LF # appended)) =
      CHR '':'' # rest @ LF # appended"
    by (simp only: s2 append_Cons)
  have tw: "takeWhile (\<lambda>x. \<not> isLineTerminator x) (rest @ LF # appended) =
            takeWhile (\<lambda>x. \<not> isLineTerminator x) rest"
    by (rule takeWhile_tail) (simp add: isLineTerminator_def)
  show ?thesis
    unfolding matchTitleAt_parts [OF d1 [symmetric] d2 [symmetric]]
    using word' by (simp add: tw m)
qed

lemma shortOfTitle_no_match: "shortOfTitle s \<Longrightarrow> matchTitleAt s = None"
proof -
  assume "shortOfTitle s"
  then have h: "dropWhile isWhiteSpace (drop 5 (dropWhile isWhiteSpace s)) = []"
    unfolding shortOfTitle_def .
  show ?thesis
    unfolding matchTitleAt_parts [OF refl refl] h by simp
qed

lemma dropWhile_drop_all:
  "\<forall>x \<in> set xs. P x \<Longrightarrow> dropWhile P (drop n xs) = []"
  by (auto dest: in_set_dropD)

lemma shortOfTitle_tl:
  assumes "shortOfTitle (c # cs)"
  shows "shortOfTitle cs"
proof (cases "isWhiteSpace c")
  case True
  then have "dropWhile isWhiteSpace (c # cs) = dropWhile isWhiteSpace cs" by simp
  with assms show ?thesis unfolding shortOfTitle_def by (simp only:)
next
  case False
  then have "dropWhile isWhiteSpace (c # cs) = c # cs" by simp
  with assms have "dropWhile isWhiteSpace (drop 5 (c # cs)) = []"
    unfolding shortOfTitle_def by (simp only:)
  then have "dropWhile isWhiteSpace (drop 4 cs) = []" by simp
  then have ws: "\<forall>x \<in> set (drop 4 cs). isWhiteSpace x"
    by (simp only: dropWhile_eq_Nil_conv)
  have "dropWhile isWhiteSpace cs = drop (length (takeWhile isWhiteSpace cs)) cs"
    by (rule dropWhile_eq_drop)
  then have "drop 5 (dropWhile isWhiteSpace cs) =
             drop (1 + length (takeWhile isWhiteSpace cs)) (drop 4 cs)"
    by (simp add: add.commute)
  then show ?thesis
    unfolding shortOfTitle_def using dropWhile_drop_all [OF ws] by (simp only:)
qed

lemma shortOfTitle_search: "shortOfTitle s \<Longrightarrow> searchTitle b s = None"
proof (induction s arbitrary: b)
  case Nil
  then show ?case by (simp add: matchTitleAt_Nil)
next
  case (Cons c cs)
  then show ?case
    using shortOfTitle_tl [OF Cons.prems] shortOfTitle_no_match [OF Cons.prems] by simp
qed

lemma match_after_append:
  assumes "matchTitleAt s = None" and "matchTitleAt (s @ LF # appended) \<noteq> None"
  shows "shortOfTitle s"
proof (rule ccontr)
  assume ns: "\<not> shortOfTitle s"
  define s1 where "s1 = dropWhile isWhiteSpace s"
  define s2 where "s2 = dropWhile isWhiteSpace (drop 5 s1)"
  from ns have long: "s2 \<noteq> []"
    unfolding shortOfTitle_def s1_def s2_def .
  then have "drop 5 s1 \<noteq> []" unfolding s2_def by auto
  then have len: "5 < length s1" by simp
  then have "s1 \<noteq> []" by auto
  then have ne: "dropWhile isWhiteSpace s \<noteq> []" unfolding s1_def .
  have d1: "dropWhile isWhiteSpace (s @ LF # appended) = s1 @ LF # appended"
    unfolding s1_def using ne by (rule dropWhile_append_keep)
  have "dropWhile isWhiteSpace (drop 5 s1 @ LF # appended) = s2 @ LF # appended"
    using long unfolding s2_def by (rule dropWhile_append_keep)
  moreover have "drop 5 (s1 @ LF # appended) = drop 5 s1 @ LF # appended"
    using len by simp
  ultimately have d2: "dropWhile isWhiteSpace (drop 5 (s1 @ LF # appended)) = s2 @ LF # appended"
    by simp
  have w: "startsWith (toLowerCase (s1 @ LF # appended)) ''title'' =
           startsWith (toLowerCase s1) ''title''"
    using len by (simp add: startsWith_lower_append)
  obtain c rest where cr: "s2 = c # rest"
    using long by (cases s2) auto
  have "matchTitleAt (s @ LF # appended) = None"
    using assms(1)
    unfolding matchTitleAt_parts [OF d1 [symmetric] d2 [symmetric]]
      matchTitleAt_parts [OF s1_def s2_def] w
    by (simp add: cr split: if_splits)
  with assms(2) show False by simp
qed

lemma searchTitle_append:
  "searchTitle b s = Some m \<Longrightarrow> searchTitle b (s @ LF # appended) = Some m"
proof (induction s arbitrary: b)
  case Nil
  then show ?case by (simp add: matchTitleAt_Nil split: if_splits)
next
  case (Cons c cs)
  show ?case
  proof (cases "b \<and> matchTitleAt (c # cs) \<noteq> None")
    case True
    with Cons.prems have "matchTitleAt (c # cs) = Some m" by auto
    from matchTitleAt_append [OF this, of appended] True show ?thesis by simp
  next
    case False
    with Cons.prems have later: "searchTitle (isLineTerminator c) cs = Some m"
      by (auto split: if_splits option.splits)
    have here: "b \<Longrightarrow> matchTitleAt ((c # cs) @ LF # appended) = None"
    proof (rule ccontr)
      assume b and after: "matchTitleAt ((c # cs) @ LF # appended) \<noteq> None"
      with False have "matchTitleAt (c # cs) = None" by simp
      then have "shortOfTitle (c # cs)" using after by (rule match_after_append)
      then have "shortOfTitle cs" by (rule shortOfTitle_tl)
      then have "searchTitle (isLineTerminator c) cs = None" by (rule shortOfTitle_search)
      with later show False by simp
    qed
    from Cons.IH [OF later] here show ?thesis by auto
  qed
qed

lemma parseTitle_first_wins:
  "searchTitle True text = Some m \<Longrightarrow>
   parseTitleFromText (text @ LF # appended) = parseTitleFromText text"
  by (simp add: parseTitleFromText_def searchTitle_append)


subsection \<open>The import loops keep the last title line\<close>

lemma isTitleLine_not_blank: "isTitleLine l \<Longrightarrow> trim l \<noteq> [] \<and> trim l \<noteq> draftMarker"
  by (auto simp add: isTitleLine_def startsWith_Cons toLowerCase_def draftMarker_def
      lowerChar_def isUpperCase_def)

lemma importStep_title:
  "title (importStep st l) = (if isTitleLine l then trim (drop 6 (trim l)) else title st)"
  using isTitleLine_not_blank [of l]
  by (auto simp add: importStep_def isTitleLine_def Let_def)

lemma importLoop_title_unchanged:
  "\<forall>l \<in> set ls. \<not> isTitleLine l \<Longrightarrow> title (foldl importStep st ls) = title st"
  by (induction ls arbitrary: st) (simp_all add: importStep_title)

lemma importLoop_last_title:
  assumes "isTitleLine l" and "\<forall>l' \<in> set after. \<not> isTitleLine l'"
  shows "title (foldl importStep st (before @ l # after)) = trim (drop 6 (trim l))"
  using assms by (simp add: importLoop_title_unchanged importStep_title)

lemma importDraft_title:
  "title (importDraft fileContent) = title (foldl importStep initImport (splitLines fileContent))"
  by (simp add: importDraft_def Let_def)

lemma importGameStep_title:
  "title (importGameStep st l) = (if isTitleLine l then trim (drop 6 (trim l)) else title st)"
  using isTitleLine_not_blank [of l]
  by (auto simp add: importGameStep_def isTitleLine_def Let_def)

lemma importGameLoop_title_unchanged:
  "\<forall>l \<in> set ls. \<not> isTitleLine l \<Longrightarrow> title (foldl importGameStep st ls) = title st"
  by (induction ls arbitrary: st) (simp_all add: importGameStep_title)

lemma importGameLoop_last_title:
  assumes "isTitleLine l" and "\<forall>l' \<in> set after. \<not> isTitleLine l'"
  shows "title (foldl importGameStep st (before @ l # after)) = trim (drop 6 (trim l))"
  using assms by (simp add: importGameLoop_title_unchanged importGameStep_title)

lemma importGame_title:
  "title (importGame fileContent) =
   title (foldl importGameStep initImport (splitLines fileContent))"
  by (simp add: importGame_def Let_def)

text \<open>
  Claim C7, as the program has it. \<open>parseTitleFromText\<close> keeps the first match of
  the title pattern: once the pattern matches in a text, no line appended after it
  changes the result. The two import loops of the edit path assign the title at every
  title line, so there the last title line of the file decides.
\<close>

theorem title_line_precedence:
  assumes "searchTitle True text = Some m"
    and "splitLines (text @ LF # appended) = before @ l # after"
    and "isTitleLine l" and "\<forall>l' \<in> set after. \<not> isTitleLine l'"
  shows "parseTitleFromText (text @ LF # appended) = parseTitleFromText text \<and>
         title (importDraft (text @ LF # appended)) = trim (drop 6 (trim l)) \<and>
         title (importGame (text @ LF # appended)) = trim (drop 6 (trim l))"
proof -
  have "parseTitleFromText (text @ LF # appended) = parseTitleFromText text"
    using assms(1) by (rule parseTitle_first_wins)
  moreover have "title (importDraft (text @ LF # appended)) = trim (drop 6 (trim l))"
    unfolding importDraft_title assms(2) using assms(3,4) by (rule importLoop_last_title)
  moreover have "title (importGame (text @ LF # appended)) = trim (drop 6 (trim l))"
    unfolding importGame_title assms(2) using assms(3,4) by (rule importGameLoop_last_title)
  ultimately show ?thesis by simp
qed

theorem title_line_precedence_witness:
  "parseTitleFromText (twoTitlesHead @ LF # twoTitlesTail) = ''First'' \<and>
   title (importDraft (twoTitlesHead @ LF # twoTitlesTail)) = ''Second'' \<and>
   title (importGame (twoTitlesHead @ LF # twoTitlesTail)) = ''Second''"
proof -
  have h1: "searchTitle True twoTitlesHead = Some '' First''"
    by code_simp
  have h2: "splitLines (twoTitlesHead @ LF # twoTitlesTail) =
      [''[JEOPARDY DRAFT]'', ''Title: First'', ''Teams: ''] @ ''Title: Second'' #
      [''Category: C1'', ''100|q|a'', []]"
    by code_simp
  have h3: "isTitleLine ''Title: Second''"
    by code_simp
  have h4: "\<forall>l' \<in> set [''Category: C1'', ''100|q|a'', []]. \<not> isTitleLine l'"
    by code_simp
  have first: "parseTitleFromText twoTitlesHead = ''First''"
    by code_simp
  have last: "trim (drop 6 (trim ''Title: Second'')) = ''Second''"
    by code_simp
  show ?thesis
    using title_line_precedence [OF h1 h2 h3 h4] first last by simp
qed

text \<open>
  The claim as the specification words it fails on the import path: of two title lines
  the draft import keeps the second.
\<close>

theorem import_title_counterexample:
  "splitLines (twoTitlesHead @ LF # twoTitlesTail) =
     [''[JEOPARDY DRAFT]'', ''Title: First'', ''Teams: '', ''Title: Second'',
      ''Category: C1'', ''100|q|a'', []] \<and>
   title (importDraft (twoTitlesHead @ LF # twoTitlesTail)) = ''Second'' \<and>
   title (importDraft (twoTitlesHead @ LF # twoTitlesTail)) \<noteq> ''First''"
  by code_simp

subsection \<open>The default team\<close>

lemma importStep_teams_empty:
  assumes "teams st = []" and "isTeamsLine l \<longrightarrow> trim (drop 6 (trim l)) = []"
  shows "teams (importStep st l) = []"
  using assms by (simp add: importStep_def isTeamsLine_def Let_def)

lemma importLoop_teams_empty:
  assumes "\<forall>l \<in> set ls. isTeamsLine l \<longrightarrow> trim (drop 6 (trim l)) = []"
    and "teams st = []"
  shows "teams (foldl importStep st ls) = []"
  using assms
proof (induction ls arbitrary: st)
  case Nil
  then show ?case by simp
next
  case (Cons l ls)
  then show ?case by (simp add: importStep_teams_empty)
qed

text \<open>
  Claim C10. When a draft has no teams line, or only teams lines whose remainder is
  blank, the draft import yields exactly one team, named Team 1, with score 0.
\<close>

theorem default_team_when_no_teams:
  assumes "\<forall>l \<in> set (splitLines fileContent). isTeamsLine l \<longrightarrow> trim (drop 6 (trim l)) = []"
  shows "teams (importDraft fileContent) = [\<lparr>name = ''Team 1'', score = 0\<rparr>]"
proof -
  have "teams (foldl importStep initImport (splitLines fileContent)) = []"
    by (rule importLoop_teams_empty [OF assms]) (simp add: initImport_def)
  then show ?thesis
    by (simp add: importDraft_def Let_def)
qed

theorem default_team_when_no_teams_witness:
  "filter isTeamsLine (splitLines (twoTitlesHead @ LF # twoTitlesTail)) = [''Teams: ''] \<and>
   teams (importDraft (twoTitlesHead @ LF # twoTitlesTail)) = [\<lparr>name = ''Team 1'', score = 0\<rparr>]"
proof -
  have h: "\<forall>l \<in> set (splitLines (twoTitlesHead @ LF # twoTitlesTail)).
      isTeamsLine l \<longrightarrow> trim (drop 6 (trim l)) = []"
    by code_simp
  have f: "filter isTeamsLine (splitLines (twoTitlesHead @ LF # twoTitlesTail)) = [''Teams: '']"
    by code_simp
  show ?thesis
    using f default_team_when_no_teams [OF h] by simp
qed
section \<open>Properties of the session storage\<close>

lemma clearAllStorage_apply:
  "clearAllStorage ls k =
     (if k \<in> set [''jeopardyBoard'', ''jeopardyUsedCells'', ''jeopardyTeams'', ''jeopardyTitle'']
      then None else ls k)"
  by (simp add: clearAllStorage_def storage_clear_def removeItem_def)

lemma resetBoard_apply:
  "resetBoard ls k = (if k \<in> set sessionSlots then None else ls k)"
  by (simp add: resetBoard_def clearAllStorage_apply removeItem_def sessionSlots_def)

lemma storage_load_reset:
  "storage_load (resetBoard ls) k d = (if k \<in> set sessionSlots then Inr d else storage_load ls k d)"
  by (simp add: storage_load_def resetBoard_apply)

lemma fullStorage_slots: "map fullStorage sessionSlots =
  [Some Corrupt, Some (Json (JArray [JString ''tq00''])),
   Some (Json (JArray [JObject [(''name'', JString ''Team 1''), (''score'', JNumber 0)]])),
   Some (Json (JString ''Geo'')), Some (Json (JObject [(''title'', JString ''Geo'')]))]"
  by (simp add: fullStorage_def sessionSlots_def)

lemma only_reset_removes_all:
  "(\<forall>ls. \<forall>k \<in> set sessionSlots. exec op ls k = None) \<longleftrightarrow> op = ResetBoard"
proof
  assume all: "\<forall>ls. \<forall>k \<in> set sessionSlots. exec op ls k = None"
  then have full: "\<forall>k \<in> set sessionSlots. exec op fullStorage k = None" by blast
  show "op = ResetBoard"
  proof (cases op)
    case ClearAllStorage
    with full have "clearAllStorage fullStorage ''jeopardyFormDraft'' = None"
      by (simp add: sessionSlots_def)
    then show ?thesis by (simp add: clearAllStorage_apply fullStorage_def)
  next
    case DiscardFormDraft
    with full have "discardFormDraft fullStorage ''jeopardyBoard'' = None"
      by (simp add: sessionSlots_def)
    then show ?thesis
      by (simp add: discardFormDraft_def storage_remove_def removeItem_def fullStorage_def)
  qed (insert full, simp_all add: sessionSlots_def saveBoardState_def saveTeams_def
         saveBoardText_def saveTitle_def clearBoardTitle_def saveFormDraft_def
         storage_save_def setItem_def)
next
  assume "op = ResetBoard"
  then show "\<forall>ls. \<forall>k \<in> set sessionSlots. exec op ls k = None"
    by (simp add: resetBoard_apply)
qed


text \<open>
  What the reload after the reset writes back: the first handler stores the empty
  title again and the second one stores the empty list of teams, so these two slots
  are present after the page load. Every one of the five slots still reads as its
  default, and no handler raises.
\<close>

lemma reload_after_reset:
  "pageLoad (resetBoard ls) k =
     (if k = ''jeopardyTitle'' then Some (Json (JString []))
      else if k = ''jeopardyTeams'' then Some (Json (JArray []))
      else resetBoard ls k)"
  by (simp add: pageLoad_def startupNotice_def startupRestore_def restoreTitle_def
      restoreBoard_def restoreTeams_def storage_load_def loadBoardText_def loadTitle_def
      loadTeams_def clearBoardTitle_def saveTitle_def saveTeams_def storage_save_def
      setItem_def resetBoard_apply sessionSlots_def)

lemma reload_after_reset_no_error:
  "snd (startupNotice (resetBoard ls)) = None \<and>
   snd (startupRestore (fst (startupNotice (resetBoard ls)))) = None"
  by (simp add: startupNotice_def startupRestore_def restoreTitle_def
      restoreBoard_def restoreTeams_def storage_load_def loadBoardText_def loadTitle_def
      loadTeams_def clearBoardTitle_def saveTitle_def saveTeams_def storage_save_def
      setItem_def resetBoard_apply sessionSlots_def)

lemma reload_after_reset_reads:
  "loadBoardText (pageLoad (resetBoard ls)) = Inr JNull \<and>
   loadBoardState (pageLoad (resetBoard ls)) = Inr (JArray []) \<and>
   loadTeams (pageLoad (resetBoard ls)) = Inr (JArray []) \<and>
   loadTitle (pageLoad (resetBoard ls)) = Inr (JString []) \<and>
   storage_load (pageLoad (resetBoard ls)) ''jeopardyFormDraft'' d = Inr d"
  by (simp add: storage_load_def loadBoardText_def loadBoardState_def loadTeams_def
      loadTitle_def reload_after_reset resetBoard_apply sessionSlots_def)

text \<open>
  Claim C8. The reset operation is the click handler of \<open>reset-board\<close>, the one
  place that calls \<open>clearAllStorage\<close>: it removes \<open>jeopardyTitle\<close> and
  \<open>jeopardyFormDraft\<close> and then calls \<open>clearAllStorage\<close>. It removes exactly the
  five slots: when the handler hands over to the reload all five are absent and every
  other key is as it was. No other operation that writes to the storage leaves all
  five absent whatever the storage held. After it each of the five slots reads as
  absent, that is, as the caller's default.
\<close>

theorem reset_removes_session_slots:
  "resetBoard ls k = (if k \<in> set sessionSlots then None else ls k) \<and>
   storage_load (resetBoard ls) k d =
     (if k \<in> set sessionSlots then Inr d else storage_load ls k d) \<and>
   ((\<forall>ls'. \<forall>k' \<in> set sessionSlots. exec op ls' k' = None) \<longleftrightarrow> op = ResetBoard)"
  using resetBoard_apply [of ls k] storage_load_reset [of ls k d] only_reset_removes_all [of op]
  by (simp only: simp_thms)

theorem reset_removes_session_slots_witness:
  "map fullStorage sessionSlots =
     [Some Corrupt, Some (Json (JArray [JString ''tq00''])),
      Some (Json (JArray [JObject [(''name'', JString ''Team 1''), (''score'', JNumber 0)]])),
      Some (Json (JString ''Geo'')), Some (Json (JObject [(''title'', JString ''Geo'')]))] \<and>
   map (resetBoard fullStorage) sessionSlots = [None, None, None, None, None] \<and>
   map (\<lambda>k. storage_load (resetBoard fullStorage) k JNull) sessionSlots =
     [Inr JNull, Inr JNull, Inr JNull, Inr JNull, Inr JNull] \<and>
   \<not> (\<forall>ls'. \<forall>k' \<in> set sessionSlots. exec DiscardFormDraft ls' k' = None)"
  using fullStorage_slots
    reset_removes_session_slots [of fullStorage "''jeopardyBoard''" JNull DiscardFormDraft]
    reset_removes_session_slots [of fullStorage "''jeopardyUsedCells''" JNull DiscardFormDraft]
    reset_removes_session_slots [of fullStorage "''jeopardyTeams''" JNull DiscardFormDraft]
    reset_removes_session_slots [of fullStorage "''jeopardyTitle''" JNull DiscardFormDraft]
    reset_removes_session_slots [of fullStorage "''jeopardyFormDraft''" JNull DiscardFormDraft]
  by (simp add: sessionSlots_def)

text \<open>
  Claim C9, as the program has it. \<open>storage.load\<close> calls \<open>JSON.parse\<close> with no
  handler: on a slot whose content is corrupt the read raises a \<open>SyntaxError\<close>
  instead of returning the default. It returns the caller's default exactly when the
  slot is absent, holds the empty string, or holds the default itself.
\<close>

theorem storage_load_corrupt_raises:
  "(ls key = Some Corrupt \<longrightarrow> storage_load ls key d = Inl SyntaxError) \<and>
   (storage_load ls key d = Inr d \<longleftrightarrow>
      ls key = None \<or> ls key = Some EmptyString \<or> ls key = Some (Json d))"
  by (auto simp add: storage_load_def split: option.splits item.splits)

theorem storage_load_corrupt_raises_witness:
  "fullStorage ''jeopardyBoard'' = Some Corrupt \<and>
   loadBoardText fullStorage = Inl SyntaxError \<and>
   loadBoardText (resetBoard fullStorage) = Inr JNull"
proof -
  have corrupt: "fullStorage ''jeopardyBoard'' = Some Corrupt"
    by (simp add: fullStorage_def)
  have absent: "resetBoard fullStorage ''jeopardyBoard'' = None"
    by (simp add: resetBoard_apply sessionSlots_def)
  show ?thesis
    using corrupt absent
      storage_load_corrupt_raises [of fullStorage "''jeopardyBoard''" JNull]
      storage_load_corrupt_raises [of "resetBoard fullStorage" "''jeopardyBoard''" JNull]
    by (simp add: loadBoardText_def)
qed

text \<open>
  The claim as the specification words it fails: the board slot of this storage is
  corrupt, and reading it raises instead of returning the default \<open>null\<close>.
\<close>

theorem corrupt_slot_counterexample:
  "fullStorage ''jeopardyBoard'' = Some Corrupt \<and>
   loadBoardText fullStorage = Inl SyntaxError \<and>
   loadBoardText fullStorage \<noteq> Inr JNull"
  by (simp add: loadBoardText_def storage_load_def fullStorage_def)
section \<open>Properties of the board on the page\<close>

lemma showNat_small: "n < 10 \<Longrightarrow> showNat n = [digitChar n]"
  by (simp add: showNat.simps)

lemma showNat_nonempty: "showNat n \<noteq> []"
  by (subst showNat.simps) simp

lemma showNat_long: "10 \<le> n \<Longrightarrow> 2 \<le> length (showNat n)"
proof -
  assume "10 \<le> n"
  then have "showNat n = showNat (n div 10) @ [digitChar (n mod 10)]"
    by (subst showNat.simps) simp
  moreover have "1 \<le> length (showNat (n div 10))"
    using showNat_nonempty [of "n div 10"] by (cases "showNat (n div 10)") simp_all
  ultimately show ?thesis by simp
qed

lemma showNat_single: "showNat n = [d] \<Longrightarrow> n < 10"
proof (rule ccontr)
  assume one: "showNat n = [d]" and "\<not> n < 10"
  from \<open>\<not> n < 10\<close> have "10 \<le> n" by simp
  then have "2 \<le> length (showNat n)" by (rule showNat_long)
  with one show False by simp
qed

lemma digitChar_inj: "m < 10 \<Longrightarrow> n < 5 \<Longrightarrow> digitChar m = digitChar n \<Longrightarrow> m = n"
proof -
  assume "m < 10" and "n < 5"
  then have "m \<in> {0, 1, 2, 3, 4, 5, 6, 7, 8, 9}" and "n \<in> {0, 1, 2, 3, 4}" by auto
  moreover assume "digitChar m = digitChar n"
  ultimately show ?thesis by (auto simp add: digitChar_def)
qed

lemma append_two:
  assumes "xs @ ys = [a, b]" and "xs \<noteq> []" and "ys \<noteq> []"
  shows "xs = [a] \<and> ys = [b]"
proof (cases xs)
  case Nil
  with assms show ?thesis by simp
next
  case (Cons x xs')
  with assms show ?thesis by (cases xs') auto
qed

lemma cellId_inj:
  assumes "r < 5" and "c < 5"
  shows "cellId row col = cellId r c \<longleftrightarrow> row = r \<and> col = c"
proof
  assume "cellId row col = cellId r c"
  then have "showNat row @ showNat col = [digitChar r, digitChar c]"
    using assms by (simp add: cellId_def showNat_small)
  then have one: "showNat row = [digitChar r] \<and> showNat col = [digitChar c]"
    by (rule append_two [OF _ showNat_nonempty showNat_nonempty])
  then have "row < 10" and "col < 10" by (auto dest: showNat_single)
  with one have "digitChar row = digitChar r" and "digitChar col = digitChar c"
    by (simp_all add: showNat_small)
  with \<open>row < 10\<close> \<open>col < 10\<close> assms show "row = r \<and> col = c"
    by (auto dest: digitChar_inj)
next
  assume "row = r \<and> col = c"
  then show "cellId row col = cellId r c" by simp
qed

lemma fillCell_apply:
  "fillCell body row col c k =
     (if k = cellId row col \<and> body k \<noteq> None then Some (cellOf c) else body k)"
  by (auto simp add: fillCell_def cellOf_def split: option.splits)

lemma cellId_inj':
  assumes "r < 5" and "c < 5"
  shows "cellId r c = cellId row col \<longleftrightarrow> row = r \<and> col = c"
  using cellId_inj [OF assms, of row col] by (simp only: eq_commute [of "cellId r c"])

lemma fillRows_apply:
  assumes "r < 5" and "c < 5"
  shows "foldl (\<lambda>body row. fillCell body row col (cs ! row)) body [0..<n] (cellId r c) =
     (if col = c \<and> r < n \<and> body (cellId r c) \<noteq> None then Some (cellOf (cs ! r))
      else body (cellId r c))"
proof (induction n)
  case 0
  then show ?case by simp
next
  case (Suc n)
  define sofar where "sofar = foldl (\<lambda>body row. fillCell body row col (cs ! row)) body [0..<n]"
  have IH: "sofar (cellId r c) =
     (if col = c \<and> r < n \<and> body (cellId r c) \<noteq> None then Some (cellOf (cs ! r))
      else body (cellId r c))"
    unfolding sofar_def by (rule Suc.IH)
  have "foldl (\<lambda>body row. fillCell body row col (cs ! row)) body [0..<Suc n] (cellId r c) =
        fillCell sofar n col (cs ! n) (cellId r c)"
    by (simp add: sofar_def)
  also have "\<dots> =
     (if n = r \<and> col = c \<and> sofar (cellId r c) \<noteq> None then Some (cellOf (cs ! n))
      else sofar (cellId r c))"
    by (simp add: fillCell_apply cellId_inj' [OF assms])
  also have "\<dots> =
     (if col = c \<and> r < Suc n \<and> body (cellId r c) \<noteq> None then Some (cellOf (cs ! r))
      else body (cellId r c))"
    unfolding IH by (cases "n = r") (simp_all add: less_Suc_eq)
  finally show ?case .
qed

lemma fillColumn_apply:
  assumes "r < 5" and "c < 5"
  shows "fillColumn body col cs (cellId r c) =
     (if col = c \<and> r < length cs \<and> body (cellId r c) \<noteq> None then Some (cellOf (cs ! r))
      else body (cellId r c))"
  unfolding fillColumn_def by (rule fillRows_apply [OF assms])

lemma fillColumns_apply:
  assumes "r < 5" and "c < 5"
  shows "foldl (\<lambda>body col. fillColumn body col (qs ! col)) body [0..<n] (cellId r c) =
     (if c < n \<and> r < length (qs ! c) \<and> body (cellId r c) \<noteq> None
      then Some (cellOf (qs ! c ! r)) else body (cellId r c))"
proof (induction n)
  case 0
  then show ?case by simp
next
  case (Suc n)
  define sofar where "sofar = foldl (\<lambda>body col. fillColumn body col (qs ! col)) body [0..<n]"
  have IH: "sofar (cellId r c) =
     (if c < n \<and> r < length (qs ! c) \<and> body (cellId r c) \<noteq> None
      then Some (cellOf (qs ! c ! r)) else body (cellId r c))"
    unfolding sofar_def by (rule Suc.IH)
  have "foldl (\<lambda>body col. fillColumn body col (qs ! col)) body [0..<Suc n] (cellId r c) =
        fillColumn sofar n (qs ! n) (cellId r c)"
    by (simp add: sofar_def)
  also have "\<dots> =
     (if n = c \<and> r < length (qs ! n) \<and> sofar (cellId r c) \<noteq> None
      then Some (cellOf (qs ! n ! r)) else sofar (cellId r c))"
    by (rule fillColumn_apply [OF assms])
  also have "\<dots> =
     (if c < Suc n \<and> r < length (qs ! c) \<and> body (cellId r c) \<noteq> None
      then Some (cellOf (qs ! c ! r)) else body (cellId r c))"
    unfolding IH by (cases "n = c") (simp_all add: less_Suc_eq)
  finally show ?case .
qed

lemma populateCells_apply:
  assumes "r < 5" and "c < 5"
  shows "populateCells qs body (cellId r c) =
     (if c < length qs \<and> r < length (qs ! c) \<and> body (cellId r c) \<noteq> None
      then Some (cellOf (qs ! c ! r)) else body (cellId r c))"
  unfolding populateCells_def by (rule fillColumns_apply [OF assms])

lemma generateGameBoard_cells:
  "\<forall>r \<in> set [0..<5]. \<forall>c \<in> set [0..<5].
     generateGameBoard (cellId r c) = Some \<lparr>h3 = showNat ((r + 1) * 100), q = [], aq = []\<rparr>"
  by code_simp

lemma generateGameBoard_apply:
  "r < 5 \<Longrightarrow> c < 5 \<Longrightarrow>
   generateGameBoard (cellId r c) = Some \<lparr>h3 = showNat ((r + 1) * 100), q = [], aq = []\<rparr>"
  using generateGameBoard_cells by simp

text \<open>
  Claim C6, as the program has it. The board is generated with the ladder value
  \<open>100 \<times> (row + 1)\<close> in every cell, and filling it from the text overwrites the
  heading of each cell with the value field of the clue row at that place. So a cell
  shows the value written in the file, and the ladder value stays only in a cell for
  which the text has no row.
\<close>

theorem displayed_value_from_file:
  assumes "row < 5" and "col < 5"
  shows "map_option h3 (populateJeopardyBoardFromText text (cellId row col)) =
     Some (if col < length (snd (parseBoardText text)) \<and>
              row < length (snd (parseBoardText text) ! col)
           then valueText (snd (parseBoardText text) ! col ! row)
           else showNat ((row + 1) * 100))"
  by (simp add: populateJeopardyBoardFromText_def populateCells_apply [OF assms]
      generateGameBoard_apply [OF assms] cellOf_def)

theorem displayed_value_from_file_witness:
  "map_option h3 (populateJeopardyBoardFromText geoTextOdd (cellId 0 0)) = Some ''999'' \<and>
   map_option h3 (populateJeopardyBoardFromText draftText (cellId 1 0)) = Some ''200''"
proof -
  have h: "(0::nat) < 5" "(1::nat) < 5"
    by simp_all
  have fromFile: "(if 0 < length (snd (parseBoardText geoTextOdd)) \<and>
              0 < length (snd (parseBoardText geoTextOdd) ! 0)
           then valueText (snd (parseBoardText geoTextOdd) ! 0 ! 0)
           else showNat ((0 + 1) * 100)) = ''999''"
    by code_simp
  have ladder: "(if 0 < length (snd (parseBoardText draftText)) \<and>
              1 < length (snd (parseBoardText draftText) ! 0)
           then valueText (snd (parseBoardText draftText) ! 0 ! 1)
           else showNat ((1 + 1) * 100)) = ''200''"
    by code_simp
  show ?thesis
    using displayed_value_from_file [OF h(1) h(1), of geoTextOdd]
      displayed_value_from_file [OF h(2) h(1), of draftText]
    unfolding fromFile ladder by simp
qed

text \<open>
  The claim as the specification words it fails: this text is accepted for play, the
  value field of its first row is 999, and the cell at row 0 shows 999, not 100.
\<close>

theorem displayed_value_counterexample:
  "validateGameFile geoTextOdd = Valid Complete \<and>
   map_option h3 (populateJeopardyBoardFromText geoTextOdd (cellId 0 0)) = Some ''999'' \<and>
   showNat (100 * (0 + 1)) = ''100''"
  by code_simp

section \<open>Properties of the text format\<close>

subsection \<open>Trimming, splitting and joining\<close>

lemma trim16_id:
  assumes "s \<noteq> []" and "\<not> isWhiteSpace16 (hd s)" and "\<not> isWhiteSpace16 (last s)"
  shows "trim16 s = s"
proof -
  from assms(1,2) have a: "dropWhile isWhiteSpace16 s = s"
    by (cases s) simp_all
  from assms(1,3) have "dropWhile isWhiteSpace16 (rev s) = rev s"
    by (cases "rev s") (simp_all add: hd_rev [symmetric] del: rev_is_Nil_conv)
  then show ?thesis
    unfolding trim16_def a by simp
qed

lemma trim16_ws_Cons: "isWhiteSpace16 c \<Longrightarrow> trim16 (c # s) = trim16 s"
  by (simp add: trim16_def)

lemma trim16_Nil: "trim16 [] = []"
  by (simp add: trim16_def)

lemma trimmed16_ends:
  assumes "trim16 s = s" and "s \<noteq> []"
  shows "\<not> isWhiteSpace16 (hd s) \<and> \<not> isWhiteSpace16 (last s)"
proof -
  define a where "a = dropWhile isWhiteSpace16 s"
  define b where "b = dropWhile isWhiteSpace16 (rev a)"
  have s: "s = rev b"
    using assms(1) unfolding trim16_def a_def b_def by simp
  have "rev a = takeWhile isWhiteSpace16 (rev a) @ b"
    unfolding b_def by simp
  then have "rev (rev a) = rev (takeWhile isWhiteSpace16 (rev a) @ b)"
    by (rule arg_cong)
  then have a_eq: "a = s @ rev (takeWhile isWhiteSpace16 (rev a))"
    unfolding s by simp
  have "s = takeWhile isWhiteSpace16 s @ a"
    unfolding a_def by simp
  then have "length s = length (takeWhile isWhiteSpace16 s) + length a"
    by (metis length_append)
  moreover have "length a = length s + length (takeWhile isWhiteSpace16 (rev a))"
    using a_eq by (metis length_append length_rev)
  ultimately have "length (takeWhile isWhiteSpace16 s) = 0"
    and "length (takeWhile isWhiteSpace16 (rev a)) = 0"
    by simp_all
  then have tw: "takeWhile isWhiteSpace16 s = []" and "takeWhile isWhiteSpace16 (rev a) = []"
    by simp_all
  with a_eq have as: "a = s" by simp
  from tw assms(2) have h: "\<not> isWhiteSpace16 (hd s)"
    by (cases s) (simp_all split: if_splits)
  from \<open>takeWhile isWhiteSpace16 (rev a) = []\<close> assms(2) have "\<not> isWhiteSpace16 (hd (rev s))"
    unfolding as by (cases "rev s") (simp_all split: if_splits)
  then have "\<not> isWhiteSpace16 (last s)"
    using assms(2) by (simp add: hd_rev)
  with h show ?thesis by simp
qed

lemma splitOn_nonempty: "splitOn d s \<noteq> []"
  by (induction s) (auto, metis consHead.elims list.distinct(1))

lemma splitOn_append:
  "d \<notin> set xs \<Longrightarrow> splitOn d (xs @ d # ys) = xs # splitOn d ys"
  by (induction xs) auto

lemma joinWith_Cons: "ls \<noteq> [] \<Longrightarrow> joinWith d (l # ls) = l @ d # joinWith d ls"
  by (cases ls) simp_all

lemma joinWith_consHead: "ls \<noteq> [] \<Longrightarrow> joinWith d (consHead c ls) = c # joinWith d ls"
proof (cases ls)
  case Nil
  assume "ls \<noteq> []"
  with Nil show ?thesis by simp
next
  case (Cons l ls')
  then show ?thesis by (cases ls') simp_all
qed

lemma joinWith_splitOn: "joinWith d (splitOn d s) = s"
  by (induction s) (simp_all add: joinWith_Cons joinWith_consHead splitOn_nonempty)

lemma splitLines16_LF: "splitLines16 (LF16 # rest) = [] # splitLines16 rest"
  by (cases rest) simp_all

lemma splitLines16_line:
  assumes "LF16 \<notin> set l" and "l \<noteq> [] \<longrightarrow> last l \<noteq> CR16"
  shows "splitLines16 (l @ LF16 # rest) = l # splitLines16 rest"
  using assms
proof (induction l rule: splitLines16.induct)
  case 1
  then show ?case by (simp add: splitLines16_LF)
next
  case (2 c)
  then show ?case by (simp add: splitLines16_LF)
next
  case (3 c d cs)
  from "3.prems" have c: "c \<noteq> LF16" and d: "d \<noteq> LF16" and cs: "LF16 \<notin> set (d # cs)"
    and l: "d # cs \<noteq> [] \<longrightarrow> last (d # cs) \<noteq> CR16"
    by auto
  from c d have "\<not> (c = CR16 \<and> d = LF16)" by simp
  from "3.IH"(3) [OF c this cs l]
  have "splitLines16 (d # cs @ LF16 # rest) = (d # cs) # splitLines16 rest" by simp
  with c d show ?case by simp
qed

lemma takeWhile_run: "\<forall>x \<in> set xs. P x \<Longrightarrow> \<not> P y \<Longrightarrow> takeWhile P (xs @ y # ys) = xs"
  by (induction xs) simp_all

lemma dropWhile_run: "\<forall>x \<in> set xs. P x \<Longrightarrow> \<not> P y \<Longrightarrow> dropWhile P (xs @ y # ys) = y # ys"
  by (induction xs) simp_all

lemma dropWhile_snoc_keep: "\<not> P c \<Longrightarrow> \<exists>zs. dropWhile P (ys @ [c]) = zs @ [c]"
  by (induction ys) auto

lemma trim16_nonws_Cons:
  assumes "\<not> isWhiteSpace16 c"
  shows "\<exists>xs. trim16 (c # s) = c # xs"
proof -
  from dropWhile_snoc_keep [of isWhiteSpace16 c "rev s", OF assms]
  obtain zs where "dropWhile isWhiteSpace16 (rev s @ [c]) = zs @ [c]" by blast
  then have "trim16 (c # s) = c # rev zs"
    using assms by (simp add: trim16_def)
  then show ?thesis by blast
qed

subsection \<open>What the reader needs of the case conversion\<close>

lemma lowersAscii_prefix:
  assumes "lowersAscii lower" and "\<forall>x \<in> set p. x < 128"
  shows "take (length p) (lower (p @ r)) = map asciiLower p"
proof -
  define n where "n = length (takeWhile (\<lambda>c. c < 128) (p @ r))"
  have tw: "takeWhile (\<lambda>c. c < 128) (p @ r) = p @ takeWhile (\<lambda>c. c < 128) r"
    using assms(2) by (simp add: takeWhile_append2)
  then have n: "length p \<le> n"
    unfolding n_def by simp
  from assms(1) have "take n (lower (p @ r)) = map asciiLower (takeWhile (\<lambda>c. c < 128) (p @ r))"
    unfolding lowersAscii_def n_def by blast
  then have "take (length p) (take n (lower (p @ r))) =
             take (length p) (map asciiLower (p @ takeWhile (\<lambda>c. c < 128) r))"
    unfolding tw by (rule arg_cong)
  then show ?thesis
    using n by (simp add: min_absorb1)
qed

lemma lowersAscii_startsWith:
  assumes "lowersAscii lower" and "\<forall>x \<in> set p. x < 128"
  shows "startsWith (lower (p @ r)) (map asciiLower p)"
  unfolding startsWith_def using lowersAscii_prefix [OF assms, of r] by simp

lemma lowersAscii_first:
  assumes "lowersAscii lower" and "x < 128" and "startsWith (lower (x # r)) (y # ys)"
  shows "asciiLower x = y"
proof -
  from lowersAscii_prefix [OF assms(1), of "[x]" r] assms(2)
  have one: "take 1 (lower (x # r)) = [asciiLower x]" by simp
  from assms(3) have "take (Suc (length ys)) (lower (x # r)) = y # ys"
    by (simp add: startsWith_def)
  then have "take 1 (take (Suc (length ys)) (lower (x # r))) = take 1 (y # ys)"
    by (rule arg_cong)
  then have "take 1 (lower (x # r)) = [y]"
    by (simp add: min_absorb1)
  with one show ?thesis by simp
qed

lemma lowersAscii_map: "lowersAscii (map asciiLower)"
  unfolding lowersAscii_def
proof
  fix s :: ustring
  have "take (length (takeWhile (\<lambda>c. c < 128) s)) (map asciiLower s) =
        map asciiLower (take (length (takeWhile (\<lambda>c. c < 128) s)) s)"
    by (simp add: take_map)
  also have "take (length (takeWhile (\<lambda>c. c < 128) s)) s = takeWhile (\<lambda>c. c < 128) s"
    by (simp add: takeWhile_eq_take [symmetric])
  finally show "take (length (takeWhile (\<lambda>c. c < 128) s)) (map asciiLower s) =
        map asciiLower (takeWhile (\<lambda>c. c < 128) s)" .
qed


subsection \<open>Reading back the lines of a board text\<close>

lemma isWhiteSpace16_LF: "isWhiteSpace16 LF16" and isWhiteSpace16_CR: "isWhiteSpace16 CR16"
  by (simp_all add: isWhiteSpace16_def isLineTerminator16_def LF16_def CR16_def)

lemma isDigit16_not_ws: "isDigit16 c \<Longrightarrow> \<not> isWhiteSpace16 c"
  by (auto simp add: isDigit16_def isWhiteSpace16_def isLineTerminator16_def)

lemma isDigit16_not_LF: "isDigit16 c \<Longrightarrow> c \<noteq> LF16"
  by (auto simp add: isDigit16_def LF16_def)

lemma isDigit16_not_bar: "isDigit16 c \<Longrightarrow> c \<noteq> BAR16"
  by (auto simp add: isDigit16_def BAR16_def)

lemma isDigit16_ascii: "isDigit16 c \<Longrightarrow> c < 128 \<and> asciiLower c \<noteq> 99"
  by (auto simp add: isDigit16_def asciiLower_def)

lemma category_word: "ustr ''category:'' = 99 # ustr ''ategory:''"
  by (simp add: ustr_def)

lemma rowLine_trim:
  assumes "clueOK c"
  shows "trim16 (rowLine c) = rowLine c"
proof (rule trim16_id)
  from assms obtain d ds where v: "valueText16 c = d # ds" and "isDigit16 d"
    by (cases "valueText16 c") (auto simp add: clueOK_def)
  then show "rowLine c \<noteq> []" and "\<not> isWhiteSpace16 (hd (rowLine c))"
    by (simp_all add: rowLine_def isDigit16_not_ws)
  from assms have "answer16 c \<noteq> []" and "trim16 (answer16 c) = answer16 c"
    by (simp_all add: clueOK_def)
  then have "\<not> isWhiteSpace16 (last (answer16 c))"
    using trimmed16_ends by blast
  then show "\<not> isWhiteSpace16 (last (rowLine c))"
    using \<open>answer16 c \<noteq> []\<close> by (simp add: rowLine_def)
qed

lemma rowLine_not_category:
  assumes "lowersAscii lower" and "clueOK c"
  shows "\<not> startsWith (lower (rowLine c)) (ustr ''category:'')"
proof
  assume sw: "startsWith (lower (rowLine c)) (ustr ''category:'')"
  from assms(2) obtain d ds where v: "valueText16 c = d # ds" and d: "isDigit16 d"
    by (cases "valueText16 c") (auto simp add: clueOK_def)
  from v have "rowLine c = d # (ds @ [BAR16] @ question16 c @ [BAR16] @ answer16 c)"
    by (simp add: rowLine_def)
  with sw have "startsWith (lower (d # (ds @ [BAR16] @ question16 c @ [BAR16] @ answer16 c)))
      (99 # ustr ''ategory:'')"
    by (simp only: category_word)
  with assms(1) isDigit16_ascii [OF d] have "asciiLower d = 99"
    by (blast intro: lowersAscii_first)
  with isDigit16_ascii [OF d] show False by simp
qed

lemma rowLine_testRow:
  assumes "clueOK c"
  shows "testRow16 (rowLine c)"
proof -
  from assms have digits: "\<forall>x \<in> set (valueText16 c). isDigit16 x" and ne: "valueText16 c \<noteq> []"
    by (simp_all add: clueOK_def list_all_iff)
  have bar: "\<not> isDigit16 BAR16"
    by (simp add: isDigit16_def BAR16_def)
  show ?thesis
    using ne by (simp add: testRow16_def rowLine_def takeWhile_run [OF digits bar]
        dropWhile_run [OF digits bar])
qed

lemma rowLine_parts:
  assumes "clueOK c"
  shows "splitOn BAR16 (rowLine c) = valueText16 c # question16 c # splitOn BAR16 (answer16 c)"
proof -
  from assms have "BAR16 \<notin> set (valueText16 c)"
    by (auto simp add: clueOK_def list_all_iff dest: isDigit16_not_bar)
  moreover from assms have "BAR16 \<notin> set (question16 c)"
    by (simp add: clueOK_def)
  ultimately show ?thesis
    by (simp add: rowLine_def splitOn_append)
qed

lemma digits_trim:
  assumes "v \<noteq> []" and "\<forall>x \<in> set v. isDigit16 x"
  shows "trim16 v = v"
proof (rule trim16_id)
  show "v \<noteq> []" by fact
  from assms show "\<not> isWhiteSpace16 (hd v)" by (simp add: isDigit16_not_ws)
  from assms show "\<not> isWhiteSpace16 (last v)" by (simp add: isDigit16_not_ws)
qed

lemma rowLine_parseClue:
  assumes "clueOK c"
  shows "parseClue16 (splitOn BAR16 (rowLine c)) = c"
proof -
  from assms have "trim16 (valueText16 c) = valueText16 c"
    by (intro digits_trim) (simp_all add: clueOK_def list_all_iff)
  moreover from assms have "trim16 (question16 c) = question16 c"
    and "trim16 (answer16 c) = answer16 c"
    by (simp_all add: clueOK_def)
  ultimately show ?thesis
    by (simp add: rowLine_parts [OF assms] parseClue16_def joinWith_splitOn)
qed

lemma populateStep16_row:
  assumes "lowersAscii lower" and "clueOK c"
  shows "populateStep16 lower st (rowLine c) =
         st\<lparr>currentQuestions16 := currentQuestions16 st @ [c]\<rparr>"
proof -
  have ne: "rowLine c \<noteq> []"
    by (simp add: rowLine_def)
  have len: "3 \<le> length (splitOn BAR16 (rowLine c))"
    using splitOn_nonempty [of BAR16 "answer16 c"]
    by (cases "splitOn BAR16 (answer16 c)") (simp_all add: rowLine_parts [OF assms(2)])
  show ?thesis
    unfolding populateStep16_def rowLine_trim [OF assms(2)] Let_def
    using ne len rowLine_not_category [OF assms] rowLine_testRow [OF assms(2)]
    by (simp add: rowLine_parseClue [OF assms(2)])
qed

lemma populateStep16_blank: "populateStep16 lower st [] = st"
  by (simp add: populateStep16_def trim16_Nil)

lemma populateStep16_rows:
  "lowersAscii lower \<Longrightarrow> \<forall>c \<in> set cs. clueOK c \<Longrightarrow>
   foldl (populateStep16 lower) st (map rowLine cs) =
     st\<lparr>currentQuestions16 := currentQuestions16 st @ cs\<rparr>"
  by (induction cs arbitrary: st) (simp_all add: populateStep16_row)

lemma categoryLine_trim:
  assumes "nameOK c"
  shows "trim16 (categoryLine c) = categoryLine c"
proof (rule trim16_id)
  show "categoryLine c \<noteq> []" by (simp add: categoryLine_def ustr_def)
  show "\<not> isWhiteSpace16 (hd (categoryLine c))"
    by (simp add: isWhiteSpace16_def isLineTerminator16_def categoryLine_def ustr_def)
  from assms have "c \<noteq> []" and "trim16 c = c"
    by (simp_all add: nameOK_def)
  then have "\<not> isWhiteSpace16 (last c)"
    using trimmed16_ends by blast
  then show "\<not> isWhiteSpace16 (last (categoryLine c))"
    using \<open>c \<noteq> []\<close> by (simp add: categoryLine_def)
qed

lemma categoryLine_prefix:
  assumes "lowersAscii lower"
  shows "startsWith (lower (categoryLine c)) (ustr ''category:'')"
proof -
  have ascii: "\<forall>x \<in> set (ustr ''Category:''). x < 128"
    by (simp add: ustr_def)
  have line: "categoryLine c = ustr ''Category:'' @ 32 # c"
    by (simp add: categoryLine_def ustr_def)
  have word: "map asciiLower (ustr ''Category:'') = ustr ''category:''"
    by (simp add: ustr_def asciiLower_def)
  show ?thesis
    unfolding line using lowersAscii_startsWith [OF assms ascii, of "32 # c"]
    by (simp only: word)
qed

lemma categoryLine_name:
  assumes "nameOK c"
  shows "trim16 (drop 9 (categoryLine c)) = c"
proof -
  have "trim16 (drop 9 (categoryLine c)) = trim16 (32 # c)"
    by (simp add: categoryLine_def ustr_def)
  also have "\<dots> = trim16 c"
    by (rule trim16_ws_Cons) (simp add: isWhiteSpace16_def)
  finally show ?thesis
    using assms by (simp add: nameOK_def)
qed

lemma populateStep16_category:
  assumes "lowersAscii lower" and "nameOK c"
  shows "populateStep16 lower st (categoryLine c) =
     st\<lparr>boardCategories16 := fst (pushCurrent16 st), questions16 := snd (pushCurrent16 st),
        boardCurrentCategory16 := Some c, currentQuestions16 := []\<rparr>"
proof -
  have ne: "categoryLine c \<noteq> []" by (simp add: categoryLine_def ustr_def)
  show ?thesis
    unfolding populateStep16_def categoryLine_trim [OF assms(2)] Let_def
      categoryLine_name [OF assms(2)]
    using categoryLine_prefix [OF assms(1), of c] ne by simp
qed

lemma populateStep16_block:
  assumes "lowersAscii lower" and "nameOK c" and "\<forall>x \<in> set cs. clueOK x"
  shows "foldl (populateStep16 lower) st (blockLines (c, cs)) =
     \<lparr>boardCategories16 = fst (pushCurrent16 st), questions16 = snd (pushCurrent16 st),
      boardCurrentCategory16 = Some c, currentQuestions16 = cs\<rparr>"
  by (simp add: blockLines_def populateStep16_category [OF assms(1,2)]
      populateStep16_rows [OF assms(1,3)] populateStep16_blank)

lemma pushCurrent16_block:
  assumes "lowersAscii lower" and "nameOK c" and "\<forall>x \<in> set cs. clueOK x"
  shows "pushCurrent16 (foldl (populateStep16 lower) st (blockLines (c, cs))) =
         (fst (pushCurrent16 st) @ [c], snd (pushCurrent16 st) @ [cs])"
  using assms(2) unfolding populateStep16_block [OF assms]
  by (simp add: pushCurrent16_def nameOK_def)

lemma pushCurrent16_blocks:
  assumes "lowersAscii lower"
    and "\<forall>b \<in> set z. nameOK (fst b) \<and> (\<forall>x \<in> set (snd b). clueOK x)"
  shows "pushCurrent16 (foldl (populateStep16 lower) st (concat (map blockLines z))) =
         (fst (pushCurrent16 st) @ map fst z, snd (pushCurrent16 st) @ map snd z)"
  using assms(2)
proof (induction z arbitrary: st)
  case Nil
  then show ?case by simp
next
  case (Cons b z)
  obtain c cs where b: "b = (c, cs)" by (cases b)
  from Cons.prems b have ok: "nameOK c" "\<forall>x \<in> set cs. clueOK x"
    and rest: "\<forall>b \<in> set z. nameOK (fst b) \<and> (\<forall>x \<in> set (snd b). clueOK x)"
    by simp_all
  show ?case
    unfolding b using Cons.IH [OF rest] by (simp add: pushCurrent16_block [OF assms(1) ok])
qed


lemma rowLine_line:
  assumes "clueOK c"
  shows "LF16 \<notin> set (rowLine c)" and "rowLine c \<noteq> [] \<longrightarrow> last (rowLine c) \<noteq> CR16"
proof -
  from assms have "LF16 \<notin> set (valueText16 c)"
    by (auto simp add: clueOK_def list_all_iff dest: isDigit16_not_LF)
  moreover have "BAR16 \<noteq> LF16" by (simp add: LF16_def BAR16_def)
  ultimately show "LF16 \<notin> set (rowLine c)"
    using assms by (simp add: rowLine_def clueOK_def)
  from assms have "answer16 c \<noteq> []" and "trim16 (answer16 c) = answer16 c"
    by (simp_all add: clueOK_def)
  then have "\<not> isWhiteSpace16 (last (answer16 c))"
    using trimmed16_ends by blast
  then have "last (answer16 c) \<noteq> CR16"
    using isWhiteSpace16_CR by auto
  then show "rowLine c \<noteq> [] \<longrightarrow> last (rowLine c) \<noteq> CR16"
    using \<open>answer16 c \<noteq> []\<close> by (simp add: rowLine_def)
qed

lemma rowText_rowLine: "rowText16 c @ rest = rowLine c @ LF16 # rest"
  by (simp add: rowText16_def rowLine_def)

lemma splitLines16_rows:
  "\<forall>x \<in> set cs. clueOK x \<Longrightarrow>
   splitLines16 (concat (map rowText16 cs) @ rest) = map rowLine cs @ splitLines16 rest"
proof (induction cs)
  case Nil
  then show ?case by simp
next
  case (Cons c cs)
  then have ok: "clueOK c" by simp
  have "splitLines16 (concat (map rowText16 (c # cs)) @ rest) =
        splitLines16 (rowLine c @ LF16 # (concat (map rowText16 cs) @ rest))"
    by (simp add: rowText_rowLine)
  also have "\<dots> = rowLine c # splitLines16 (concat (map rowText16 cs) @ rest)"
    by (rule splitLines16_line [OF rowLine_line [OF ok]])
  finally show ?case
    using Cons by simp
qed

lemma categoryLine_line:
  assumes "nameOK c"
  shows "LF16 \<notin> set (categoryLine c)"
    and "categoryLine c \<noteq> [] \<longrightarrow> last (categoryLine c) \<noteq> CR16"
proof -
  have "LF16 \<notin> set (ustr ''Category: '')" by (simp add: LF16_def ustr_def)
  then show "LF16 \<notin> set (categoryLine c)"
    using assms by (simp add: categoryLine_def nameOK_def)
  from assms have "c \<noteq> []" and "trim16 c = c"
    by (simp_all add: nameOK_def)
  then have "\<not> isWhiteSpace16 (last c)"
    using trimmed16_ends by blast
  then have "last c \<noteq> CR16"
    using isWhiteSpace16_CR by auto
  then show "categoryLine c \<noteq> [] \<longrightarrow> last (categoryLine c) \<noteq> CR16"
    using \<open>c \<noteq> []\<close> by (simp add: categoryLine_def)
qed

lemma categoryText_lines:
  "categoryText16 (c, cs) @ rest =
   categoryLine c @ LF16 # (concat (map rowText16 cs) @ LF16 # rest)"
  by (simp add: categoryText16_def categoryLine_def)

lemma splitLines16_block:
  assumes "nameOK c" and "\<forall>x \<in> set cs. clueOK x"
  shows "splitLines16 (categoryText16 (c, cs) @ rest) = blockLines (c, cs) @ splitLines16 rest"
proof -
  have "splitLines16 (categoryText16 (c, cs) @ rest) =
        categoryLine c # splitLines16 (concat (map rowText16 cs) @ LF16 # rest)"
    unfolding categoryText_lines by (rule splitLines16_line [OF categoryLine_line [OF assms(1)]])
  also have "\<dots> = categoryLine c # map rowLine cs @ splitLines16 (LF16 # rest)"
    by (simp only: splitLines16_rows [OF assms(2)])
  finally show ?thesis
    by (simp add: blockLines_def splitLines16_LF)
qed

lemma splitLines16_blocks:
  assumes "\<forall>b \<in> set z. nameOK (fst b) \<and> (\<forall>x \<in> set (snd b). clueOK x)"
  shows "splitLines16 (concat (map categoryText16 z) @ rest) =
         concat (map blockLines z) @ splitLines16 rest"
  using assms
proof (induction z)
  case Nil
  then show ?case by simp
next
  case (Cons b z)
  obtain c cs where b: "b = (c, cs)" by (cases b)
  from Cons.prems b have ok: "nameOK c" "\<forall>x \<in> set cs. clueOK x"
    and rest: "\<forall>b \<in> set z. nameOK (fst b) \<and> (\<forall>x \<in> set (snd b). clueOK x)"
    by simp_all
  have "splitLines16 (concat (map categoryText16 (b # z)) @ rest) =
        splitLines16 (categoryText16 (c, cs) @ (concat (map categoryText16 z) @ rest))"
    by (simp add: b)
  also have "\<dots> = blockLines (c, cs) @ splitLines16 (concat (map categoryText16 z) @ rest)"
    by (rule splitLines16_block [OF ok])
  finally show ?case
    using Cons.IH [OF rest] by (simp add: b)
qed

lemma titleLine_line:
  assumes "titleOK t"
  shows "LF16 \<notin> set (titleLine t)"
    and "titleLine t \<noteq> [] \<longrightarrow> last (titleLine t) \<noteq> CR16"
proof -
  from assms have noterm: "\<forall>x \<in> set t. \<not> isLineTerminator16 x"
    by (simp add: titleOK_def list_all_iff)
  then have "LF16 \<notin> set t" and "CR16 \<notin> set t"
    by (auto simp add: isLineTerminator16_def LF16_def CR16_def)
  moreover have "LF16 \<notin> set (ustr ''Title: '')" by (simp add: LF16_def ustr_def)
  ultimately show "LF16 \<notin> set (titleLine t)"
    by (simp add: titleLine_def)
  have "last (titleLine t) \<noteq> CR16"
  proof (cases "t = []")
    case True
    then show ?thesis by (simp add: titleLine_def CR16_def ustr_def)
  next
    case False
    then have "last t \<in> set t" by simp
    with \<open>CR16 \<notin> set t\<close> have "last t \<noteq> CR16" by metis
    with False show ?thesis by (simp add: titleLine_def)
  qed
  then show "titleLine t \<noteq> [] \<longrightarrow> last (titleLine t) \<noteq> CR16" by simp
qed

lemma boardText_lines:
  "boardText16 t cs qss = titleLine t @ LF16 # LF16 # concat (map categoryText16 (zip cs qss)) @ []"
  by (simp add: boardText16_def titleLine_def)

lemma splitLines16_boardText:
  assumes "titleOK t"
    and "\<forall>b \<in> set (zip cs qss). nameOK (fst b) \<and> (\<forall>x \<in> set (snd b). clueOK x)"
  shows "splitLines16 (boardText16 t cs qss) =
         titleLine t # [] # concat (map blockLines (zip cs qss)) @ [[]]"
proof -
  have "splitLines16 (boardText16 t cs qss) =
        titleLine t # splitLines16 (LF16 # concat (map categoryText16 (zip cs qss)) @ [])"
    unfolding boardText_lines by (rule splitLines16_line [OF titleLine_line [OF assms(1)]])
  also have "\<dots> = titleLine t # [] # splitLines16 (concat (map categoryText16 (zip cs qss)) @ [])"
    by (simp only: splitLines16_LF)
  also have "\<dots> = titleLine t # [] # concat (map blockLines (zip cs qss)) @ splitLines16 []"
    by (simp only: splitLines16_blocks [OF assms(2)])
  finally show ?thesis by simp
qed

lemma populateStep16_other:
  assumes "lowersAscii lower" and "trim16 l = x # xs" and "x < 128"
    and "asciiLower x \<noteq> 99" and "\<not> isDigit16 x"
  shows "populateStep16 lower st l = st"
proof -
  have "\<not> startsWith (lower (x # xs)) (ustr ''category:'')"
    unfolding category_word using assms(1,3,4) by (blast dest: lowersAscii_first)
  then show ?thesis
    unfolding populateStep16_def assms(2) Let_def
    using assms(5) by (simp add: testRow16_def)
qed

lemma populateStep16_title:
  assumes "lowersAscii lower"
  shows "populateStep16 lower st (titleLine t) = st"
proof -
  have "\<not> isWhiteSpace16 84"
    by (simp add: isWhiteSpace16_def isLineTerminator16_def)
  from trim16_nonws_Cons [OF this, of "ustr ''itle: '' @ t"]
  obtain xs where "trim16 (titleLine t) = 84 # xs"
    by (auto simp add: titleLine_def ustr_def)
  with assms show ?thesis
    by (rule populateStep16_other) (simp_all add: asciiLower_def isDigit16_def)
qed

lemma parseBoardText16_boardText:
  assumes "lowersAscii lower" and "titleOK t"
    and "\<forall>b \<in> set (zip cs qss). nameOK (fst b) \<and> (\<forall>x \<in> set (snd b). clueOK x)"
  shows "parseBoardText16 lower (boardText16 t cs qss) =
         (map fst (zip cs qss), map snd (zip cs qss))"
proof -
  have "parseBoardText16 lower (boardText16 t cs qss) =
        pushCurrent16 (foldl (populateStep16 lower) initBoardParse16
          (titleLine t # [] # concat (map blockLines (zip cs qss)) @ [[]]))"
    unfolding parseBoardText16_def splitLines16_boardText [OF assms(2,3)] by (rule refl)
  also have "\<dots> = pushCurrent16 (foldl (populateStep16 lower) initBoardParse16
          (concat (map blockLines (zip cs qss))))"
    by (simp add: populateStep16_title [OF assms(1)] populateStep16_blank)
  also have "\<dots> = (fst (pushCurrent16 initBoardParse16) @ map fst (zip cs qss),
                       snd (pushCurrent16 initBoardParse16) @ map snd (zip cs qss))"
    by (rule pushCurrent16_blocks [OF assms(1,3)])
  finally show ?thesis
    by (simp add: pushCurrent16_def initBoardParse16_def)
qed

subsection \<open>Reading back the title\<close>

lemma matchTitleAt16_parts:
  assumes "s1 = dropWhile isWhiteSpace16 s" and "s2 = dropWhile isWhiteSpace16 (drop 5 s1)"
  shows "matchTitleAt16 s =
     (if startsWith (map asciiLower s1) (ustr ''title'') then
        (case s2 of
           [] \<Rightarrow> None
         | c # rest \<Rightarrow>
             if c = 58 then Some (takeWhile (\<lambda>x. \<not> isLineTerminator16 x) rest)
             else None)
      else None)"
  unfolding matchTitleAt16_def Let_def assms by (rule refl)

lemma matchTitleAt16_titleLine:
  assumes "\<forall>x \<in> set t. \<not> isLineTerminator16 x"
  shows "matchTitleAt16 (titleLine t @ LF16 # rest) = Some (32 # t)"
proof -
  have s1: "titleLine t @ LF16 # rest = dropWhile isWhiteSpace16 (titleLine t @ LF16 # rest)"
    by (simp add: titleLine_def ustr_def isWhiteSpace16_def isLineTerminator16_def)
  have s2: "58 # 32 # t @ LF16 # rest =
            dropWhile isWhiteSpace16 (drop 5 (titleLine t @ LF16 # rest))"
    by (simp add: titleLine_def ustr_def isWhiteSpace16_def isLineTerminator16_def)
  have word: "startsWith (map asciiLower (titleLine t @ LF16 # rest)) (ustr ''title'')"
    by (simp add: titleLine_def startsWith_def ustr_def asciiLower_def)
  have sp: "\<forall>x \<in> set (32 # t). \<not> isLineTerminator16 x"
    using assms by (simp add: isLineTerminator16_def)
  have "takeWhile (\<lambda>x. \<not> isLineTerminator16 x) ((32 # t) @ LF16 # rest) = 32 # t"
    by (rule takeWhile_run [OF sp]) (simp add: isLineTerminator16_def LF16_def)
  then show ?thesis
    unfolding matchTitleAt16_parts [OF s1 s2] using word by simp
qed

lemma parseTitleFromText16_boardText:
  assumes "titleOK t"
  shows "parseTitleFromText16 (boardText16 t cs qss) = t"
proof -
  from assms have noterm: "\<forall>x \<in> set t. \<not> isLineTerminator16 x" and trimmed: "trim16 t = t"
    by (simp_all add: titleOK_def list_all_iff)
  obtain x xs where cons: "titleLine t @ LF16 # LF16 # concat (map categoryText16 (zip cs qss)) = x # xs"
    by (cases "titleLine t @ LF16 # LF16 # concat (map categoryText16 (zip cs qss))") simp_all
  have "searchTitle16 True (boardText16 t cs qss) = Some (32 # t)"
    using matchTitleAt16_titleLine [OF noterm, of "LF16 # concat (map categoryText16 (zip cs qss))"]
    unfolding boardText_lines append_Nil2 cons by simp
  moreover have "trim16 (32 # t) = t"
    using trimmed by (simp add: trim16_ws_Cons isWhiteSpace16_def)
  ultimately show ?thesis
    by (simp add: parseTitleFromText16_def)
qed

text \<open>A title may be trimmed and still hold a line separator: it is then cut there,
  which is why a title that survives has none.\<close>

lemma separator_in_title_cut:
  "trim16 [65, 8232, 66] = [65, 8232, 66] \<and>
   \<not> titleOK [65, 8232, 66] \<and>
   parseTitleFromText16 (boardText16 [65, 8232, 66] [] []) = [65]"
  by (simp add: titleOK_def trim16_def isWhiteSpace16_def isLineTerminator16_def
      parseTitleFromText16_def boardText16_def matchTitleAt16_def startsWith_def
      ustr_def asciiLower_def LF16_def)

subsection \<open>A board beyond Latin-1\<close>

lemma wideTitle_ok: "titleOK wideTitle"
  by (simp add: titleOK_def wideTitle_def trim16_def isWhiteSpace16_def isLineTerminator16_def)

lemma wideCategories_ok: "list_all nameOK wideCategories"
  by (simp add: nameOK_def wideCategories_def trim16_def isWhiteSpace16_def
      isLineTerminator16_def ustr_def LF16_def)

lemma wideClues_ok: "list_all clueOK wideClues"
  by (simp add: clueOK_def wideClues_def trim16_def isWhiteSpace16_def
      isLineTerminator16_def ustr_def LF16_def BAR16_def isDigit16_def)

lemma wideQuestions_ok: "list_all (list_all clueOK) wideQuestions"
  using wideClues_ok by (simp add: wideQuestions_def list_all_iff)

subsection \<open>The round trip\<close>

text \<open>
  Claim C1, as the program has it. A board is a title, category names and, for each
  name, its clues, all over UTF-16 code units. When the title is trimmed and holds
  none of the four line terminators (LF, CR, U+2028, U+2029), every category name is
  non-empty, trimmed and without LF, every value is a non-empty run of digits, every
  question is non-empty, trimmed and without a bar or LF, and every answer is
  non-empty, trimmed and without LF, then the text that \<open>createBoardTextFromForm\<close>
  writes is read back unchanged: \<open>parseTitleFromText\<close> returns the title, and the
  line loop of \<open>populateJeopardyBoardFromText\<close> returns the category names and the
  clues. The boards of five categories of five clues are among them. The reader's
  \<open>toLowerCase\<close> is any function that lowers the ASCII start of a line letter by
  letter.
\<close>

theorem board_text_round_trip:
  assumes "lowersAscii lower"
    and "titleOK t" and "length cs = length qss"
    and "\<forall>c \<in> set cs. nameOK c"
    and "\<forall>qs \<in> set qss. \<forall>c \<in> set qs. clueOK c"
  shows "parseTitleFromText16 (boardText16 t cs qss) = t \<and>
         parseBoardText16 lower (boardText16 t cs qss) = (cs, qss)"
proof -
  have "\<forall>b \<in> set (zip cs qss). nameOK (fst b) \<and> (\<forall>x \<in> set (snd b). clueOK x)"
    using assms(4,5) by (auto dest: set_zip_leftD set_zip_rightD)
  then have "parseBoardText16 lower (boardText16 t cs qss) =
             (map fst (zip cs qss), map snd (zip cs qss))"
    by (rule parseBoardText16_boardText [OF assms(1,2)])
  then have "parseBoardText16 lower (boardText16 t cs qss) = (cs, qss)"
    using assms(3) by simp
  then show ?thesis
    by (simp add: parseTitleFromText16_boardText [OF assms(2)])
qed

theorem board_text_round_trip_witness:
  "lowersAscii (map asciiLower) \<and> titleOK wideTitle \<and>
   length wideCategories = length wideQuestions \<and>
   list_all nameOK wideCategories \<and> list_all (list_all clueOK) wideQuestions \<and>
   parseTitleFromText16 (boardText16 wideTitle wideCategories wideQuestions) = wideTitle \<and>
   parseBoardText16 (map asciiLower) (boardText16 wideTitle wideCategories wideQuestions) =
     (wideCategories, wideQuestions)"
proof -
  have len: "length wideCategories = length wideQuestions"
    by (simp add: wideCategories_def wideQuestions_def)
  have names: "\<forall>c \<in> set wideCategories. nameOK c"
    using wideCategories_ok by (simp only: list_all_iff)
  have clues: "\<forall>qs \<in> set wideQuestions. \<forall>c \<in> set qs. clueOK c"
    using wideQuestions_ok by (simp add: list_all_iff)
  show ?thesis
    using board_text_round_trip [OF lowersAscii_map wideTitle_ok len names clues]
      lowersAscii_map wideTitle_ok len wideCategories_ok wideQuestions_ok
    by (simp only: simp_thms)
qed

text \<open>
  The claim as the specification words it fails: this board is valid in its sense,
  its first question holds a bar, and reading its text back splits that question.
\<close>

theorem bar_in_question_counterexample:
  "validBoard sampleCategories barQuestions \<and>
   parseBoardText (boardText ''Geo'' sampleCategories barQuestions) \<noteq>
     (sampleCategories, barQuestions) \<and>
   question (hd (hd barQuestions)) = ''either|or'' \<and>
   question (hd (hd (snd (parseBoardText (boardText ''Geo'' sampleCategories barQuestions))))) =
     ''either'' \<and>
   answer (hd (hd (snd (parseBoardText (boardText ''Geo'' sampleCategories barQuestions))))) =
     ''or|response''"
  by code_simp

end
